theory Spec2Isabelle
  imports Main
begin

section \<open>Data model\<close>

text \<open>
  The program (\<^verbatim>\<open>olist.py\<close>) moves tables from a source store into a target store and
  reshapes them with pandas on the way. A pandas DataFrame is modelled as its list of
  column labels and its list of rows, each row a list of cells aligned with the labels.
  The row index of a DataFrame is not modelled: every frame the program builds is
  either read from a table, cut out of such a frame, or the result of a merge, and every
  column assignment of the program assigns a column computed from the same frame, so
  that index alignment is alignment by position.
\<close>

record date =
  year :: int
  month :: int
  day :: int

record timestamp =
  ts_date :: date
  ts_time :: nat  \<comment> \<open>time of day, in nanoseconds since midnight\<close>

text \<open>
  A cell is a missing value (\<^verbatim>\<open>None\<close>, \<^verbatim>\<open>NaN\<close>, \<^verbatim>\<open>NaT\<close>), a number, a text or a
  timestamp. The type \<open>'n\<close> of numbers is left open: the program does no arithmetic, and
  pandas moves between integers and floats freely.
\<close>

datatype 'n cell = Null | Num 'n | Str string | Ts timestamp

record 'n dataframe =
  columns :: "string list"
  rows :: "'n cell list list"

datatype error =
    KeyError string        \<comment> \<open>a table or a column label that is not there\<close>
  | ValueError string      \<comment> \<open>a label that names several columns where one is needed\<close>
  | MergeError string      \<comment> \<open>suffixes that produce duplicate column labels\<close>
  | ParserError            \<comment> \<open>\<^verbatim>\<open>pd.to_datetime\<close> on a value it cannot convert\<close>
  | DatabaseError string   \<comment> \<open>any failure of a store: connection, query or write\<close>

text \<open>
  The library functions the program calls on single values, whose definitions are not
  part of the repository, are parameters of the model.
\<close>

record 'n pandas =
  py_str :: "'n cell \<Rightarrow> string"
    \<comment> \<open>\<^verbatim>\<open>str(x)\<close>, as \<^verbatim>\<open>astype(str)\<close> applies it\<close>
  parse_datetime :: "'n cell \<Rightarrow> timestamp option"
    \<comment> \<open>\<^verbatim>\<open>pd.to_datetime\<close> on a text or a number; \<open>None\<close> where it raises\<close>
  parse_numeric :: "'n cell \<Rightarrow> 'n option"
    \<comment> \<open>\<^verbatim>\<open>pd.to_numeric\<close> on a text or a timestamp; \<open>None\<close> where it cannot convert\<close>
  num_of_int :: "int \<Rightarrow> 'n"
    \<comment> \<open>the number a Python \<^verbatim>\<open>int\<close> is\<close>

subsection \<open>Columns of a frame\<close>

text \<open>
  \<open>cells_of c labels r\<close> are the cells of row \<open>r\<close> under the label \<open>c\<close>: one cell when the
  label is unique, as in every table read from a store.
\<close>

definition cells_of :: "string \<Rightarrow> string list \<Rightarrow> 'a list \<Rightarrow> 'a list" where
  "cells_of c labels r = map snd (filter (\<lambda>p. fst p = c) (zip labels r))"

definition key_values :: "string \<Rightarrow> 'n dataframe \<Rightarrow> 'n cell list list" where
  "key_values c df = map (cells_of c (columns df)) (rows df)"

definition map_column :: "string \<Rightarrow> ('a \<Rightarrow> 'a) \<Rightarrow> string list \<Rightarrow> 'a list \<Rightarrow> 'a list" where
  "map_column c f labels r = map (\<lambda>p. if fst p = c then f (snd p) else snd p) (zip labels r)"

text \<open>
  \<^verbatim>\<open>df[c]\<close> for one label: a \<^verbatim>\<open>KeyError\<close> when no column has the label, a Series when one
  has. When several have it pandas returns a DataFrame, which none of the Series
  functions the program applies next (\<^verbatim>\<open>pd.to_datetime\<close>, \<^verbatim>\<open>pd.to_numeric\<close>) accepts.
\<close>

definition get_column :: "string \<Rightarrow> 'n dataframe \<Rightarrow> error + 'n cell list" where
  "get_column c df =
     (if c \<notin> set (columns df) then Inl (KeyError c)
      else if count_list (columns df) c \<noteq> 1 then Inl (ValueError c)
      else Inr (concat (key_values c df)))"

text \<open>
  A frame as a store returns it: the labels are distinct and every row has one cell for
  each label.
\<close>

definition wf_frame :: "'n dataframe \<Rightarrow> bool" where
  "wf_frame df \<longleftrightarrow>
     distinct (columns df) \<and> list_all (\<lambda>r. length r = length (columns df)) (rows df)"

subsection \<open>Dropping duplicates\<close>

text \<open>
  \<^verbatim>\<open>drop_duplicates\<close> keeps the first row of every key (\<^verbatim>\<open>keep='first'\<close> is the default)
  and compares missing values as equal. \<open>seen\<close> holds the keys met so far.
\<close>

fun keep_first :: "('a \<Rightarrow> 'k) \<Rightarrow> 'k list \<Rightarrow> 'a list \<Rightarrow> 'a list" where
  "keep_first key seen [] = []"
| "keep_first key seen (x # xs) =
     (if key x \<in> set seen then keep_first key seen xs
      else x # keep_first key (key x # seen) xs)"

definition drop_duplicates :: "string \<Rightarrow> 'n dataframe \<Rightarrow> error + 'n dataframe" where
  "drop_duplicates c df =
     (if c \<notin> set (columns df) then Inl (KeyError c)
      else Inr (df\<lparr>rows := keep_first (cells_of c (columns df)) [] (rows df)\<rparr>))"

section \<open>Transform phase\<close>

subsection \<open>Customers\<close>

text \<open>
  \<^verbatim>\<open>df = df.drop_duplicates(subset='customer_id')\<close> binds \<open>df\<close> to a new frame, so the
  assignment to its column \<^verbatim>\<open>customer_unique_id\<close> leaves the caller's frame alone.
\<close>

definition transform_dim_customers ::
  "'n pandas \<Rightarrow> 'n dataframe \<Rightarrow> error + 'n dataframe" where
  "transform_dim_customers pd df =
     (case drop_duplicates ''customer_id'' df of
        Inl e \<Rightarrow> Inl e
      | Inr df1 \<Rightarrow>
          if ''customer_unique_id'' \<notin> set (columns df1)
          then Inl (KeyError ''customer_unique_id'')
          else Inr (df1\<lparr>rows :=
                 map (map_column ''customer_unique_id'' (\<lambda>v. Str (py_str pd v)) (columns df1))
                   (rows df1)\<rparr>))"

subsection \<open>Sellers\<close>

definition transform_dim_sellers :: "'n dataframe \<Rightarrow> error + 'n dataframe" where
  "transform_dim_sellers df = drop_duplicates ''seller_id'' df"

subsection \<open>Left merge on one key column\<close>

text \<open>
  \<^verbatim>\<open>left.merge(right, on=k, how='left')\<close>. The key must name one column on each side.
  The result has the columns of \<open>left\<close> followed by those of \<open>right\<close> without its key
  column; a label that both sides have apart from the key gets the suffix \<^verbatim>\<open>_x\<close> on the
  left and \<^verbatim>\<open>_y\<close> on the right. pandas raises a \<^verbatim>\<open>MergeError\<close> when the suffixes make
  two labels of one side equal that were different before; it does not compare the
  labels of the two sides with each other, so the result may have a label twice.
  The rows keep the order of \<open>left\<close>; a left row is followed by the right columns of
  each right row with an equal key, in the order of \<open>right\<close>, or by missing values when
  there is none. Missing keys are equal to each other, as pandas has it.
\<close>

definition suffixed :: "string list \<Rightarrow> string \<Rightarrow> string \<Rightarrow> string" where
  "suffixed overlap sfx c = (if c \<in> set overlap then c @ sfx else c)"

fun duplicated :: "'a list \<Rightarrow> 'a list \<Rightarrow> bool list" where
  "duplicated seen [] = []"
| "duplicated seen (x # xs) = (x \<in> set seen) # duplicated (x # seen) xs"

definition suffix_dups :: "string list \<Rightarrow> string list \<Rightarrow> string list" where
  "suffix_dups before after =
     map fst (filter (\<lambda>p. fst (snd p) \<and> \<not> snd (snd p))
       (zip after (zip (duplicated [] after) (duplicated [] before))))"

definition drop_column :: "string \<Rightarrow> string list \<Rightarrow> 'a list \<Rightarrow> 'a list" where
  "drop_column c labels r = map snd (filter (\<lambda>p. fst p \<noteq> c) (zip labels r))"

definition join_row ::
  "string \<Rightarrow> string list \<Rightarrow> string list \<Rightarrow> 'n cell list list \<Rightarrow> 'n cell list
     \<Rightarrow> 'n cell list list" where
  "join_row k lcols rcols rrows l =
     (let ms = filter (\<lambda>r. cells_of k rcols r = cells_of k lcols l) rrows
      in if ms = [] then [l @ replicate (length (filter (\<lambda>c. c \<noteq> k) rcols)) Null]
         else map (\<lambda>r. l @ drop_column k rcols r) ms)"

definition merge_left ::
  "string \<Rightarrow> 'n dataframe \<Rightarrow> 'n dataframe \<Rightarrow> error + 'n dataframe" where
  "merge_left k left right =
     (if k \<notin> set (columns left) \<or> k \<notin> set (columns right) then Inl (KeyError k)
      else if count_list (columns left) k \<noteq> 1 \<or> count_list (columns right) k \<noteq> 1
      then Inl (ValueError k)
      else
        let rcols = filter (\<lambda>c. c \<noteq> k) (columns right);
            overlap = filter (\<lambda>c. c \<in> set rcols) (columns left);
            llabels = map (suffixed overlap ''_x'') (columns left);
            rlabels = map (suffixed overlap ''_y'') rcols
        in case suffix_dups (columns left) llabels @ suffix_dups rcols rlabels of
             d # _ \<Rightarrow> Inl (MergeError d)
           | [] \<Rightarrow> Inr \<lparr>columns = llabels @ rlabels,
                       rows = concat (map (join_row k (columns left) (columns right) (rows right))
                                (rows left))\<rparr>)"

subsection \<open>Products\<close>

definition transform_dim_products ::
  "'n dataframe \<Rightarrow> 'n dataframe \<Rightarrow> error + 'n dataframe" where
  "transform_dim_products products_df translation_df =
     (case merge_left ''product_category_name'' products_df translation_df of
        Inl e \<Rightarrow> Inl e
      | Inr merged \<Rightarrow> drop_duplicates ''product_id'' merged)"

subsection \<open>Timestamps\<close>

text \<open>
  \<^verbatim>\<open>pd.to_datetime\<close> on a Series: missing values and timestamps stay, everything else is
  converted, and one value that does not convert raises (\<^verbatim>\<open>errors='raise'\<close> is the
  default).
\<close>

definition to_datetime_cell :: "'n pandas \<Rightarrow> 'n cell \<Rightarrow> 'n cell option" where
  "to_datetime_cell pd c =
     (case c of Null \<Rightarrow> Some Null | Ts t \<Rightarrow> Some (Ts t)
      | _ \<Rightarrow> map_option Ts (parse_datetime pd c))"

fun to_datetime :: "'n pandas \<Rightarrow> 'n cell list \<Rightarrow> error + 'n cell list" where
  "to_datetime pd [] = Inr []"
| "to_datetime pd (c # cs) =
     (case to_datetime_cell pd c of
        None \<Rightarrow> Inl ParserError
      | Some v \<Rightarrow> (case to_datetime pd cs of Inl e \<Rightarrow> Inl e | Inr vs \<Rightarrow> Inr (v # vs)))"

text \<open>\<^verbatim>\<open>df[c] = values\<close> for a label the frame has: the column is replaced in place.\<close>

definition set_column :: "string \<Rightarrow> 'n cell list \<Rightarrow> 'n dataframe \<Rightarrow> 'n dataframe" where
  "set_column c vs df =
     df\<lparr>rows := map (\<lambda>p. map_column c (\<lambda>_. snd p) (columns df) (fst p)) (zip (rows df) vs)\<rparr>"

text \<open>
  The first statement of both the date and the fact transformer:
  \<^verbatim>\<open>df['order_purchase_timestamp'] = pd.to_datetime(df['order_purchase_timestamp'])\<close>.
  The frame is the caller's, and the assignment changes it.
\<close>

definition parse_purchase_timestamp ::
  "'n pandas \<Rightarrow> 'n dataframe \<Rightarrow> error + 'n dataframe" where
  "parse_purchase_timestamp pd df =
     (case get_column ''order_purchase_timestamp'' df of
        Inl e \<Rightarrow> Inl e
      | Inr raw \<Rightarrow>
          (case to_datetime pd raw of
             Inl e \<Rightarrow> Inl e
           | Inr ts \<Rightarrow> Inr (set_column ''order_purchase_timestamp'' ts df)))"

text \<open>
  \<^verbatim>\<open>pd.to_datetime(s.dt.date)\<close>: the timestamp at midnight of the same day. After
  \<^verbatim>\<open>pd.to_datetime\<close> a column holds timestamps and missing values only.
\<close>

definition midnight :: "'n cell \<Rightarrow> 'n cell" where
  "midnight c = (case c of Ts t \<Rightarrow> Ts (t\<lparr>ts_time := 0\<rparr>) | _ \<Rightarrow> Null)"

text \<open>
  Days since 1970-01-01 in the proleptic Gregorian calendar, and Python's
  \<^verbatim>\<open>weekday()\<close>: Monday is 0, Sunday is 6.
\<close>

definition days_from_civil :: "date \<Rightarrow> int" where
  "days_from_civil d =
     (let y = (if month d \<le> 2 then year d - 1 else year d);
          era = y div 400;
          yoe = y - era * 400;
          mp = (if month d > 2 then month d - 3 else month d + 9);
          doy = (153 * mp + 2) div 5 + day d - 1;
          doe = yoe * 365 + yoe div 4 - yoe div 100 + doy
      in era * 146097 + doe - 719468)"

definition weekday :: "date \<Rightarrow> int" where
  "weekday d = (days_from_civil d + 3) mod 7"

definition dt_field :: "'n pandas \<Rightarrow> (date \<Rightarrow> int) \<Rightarrow> 'n cell \<Rightarrow> 'n cell" where
  "dt_field pd f c = (case c of Ts t \<Rightarrow> Num (num_of_int pd (f (ts_date t))) | _ \<Rightarrow> Null)"

subsection \<open>Dates\<close>

definition date_row :: "'n pandas \<Rightarrow> 'n cell \<Rightarrow> 'n cell list" where
  "date_row pd d = [d, dt_field pd day d, dt_field pd month d, dt_field pd year d,
                    dt_field pd weekday d]"

text \<open>
  Returns the caller's orders frame as the first statement leaves it, and the new
  \<^verbatim>\<open>dim_date\<close> frame.
\<close>

definition transform_dim_date ::
  "'n pandas \<Rightarrow> 'n dataframe \<Rightarrow> error + 'n dataframe \<times> 'n dataframe" where
  "transform_dim_date pd orders_df =
     (case parse_purchase_timestamp pd orders_df of
        Inl e \<Rightarrow> Inl e
      | Inr orders1 \<Rightarrow>
          let dates = keep_first (\<lambda>d. d) []
                        (map midnight (concat (key_values ''order_purchase_timestamp'' orders1)))
          in Inr (orders1,
                  \<lparr>columns = [''date'', ''day'', ''month'', ''year'', ''weekday''],
                   rows = map (date_row pd) dates\<rparr>))"

subsection \<open>Orders fact table\<close>

text \<open>Running one step after another, the first exception ending the run.\<close>

definition try_bind :: "error + 'a \<Rightarrow> ('a \<Rightarrow> error + 'b) \<Rightarrow> error + 'b" where
  "try_bind m f = (case m of Inl e \<Rightarrow> Inl e | Inr a \<Rightarrow> f a)"

text \<open>\<^verbatim>\<open>dfs[name]\<close> on the dictionary of extracted tables.\<close>

definition table :: "(string \<rightharpoonup> 'n dataframe) \<Rightarrow> string \<Rightarrow> error + 'n dataframe" where
  "table tabs name = (case tabs name of None \<Rightarrow> Inl (KeyError name) | Some df \<Rightarrow> Inr df)"

text \<open>
  \<^verbatim>\<open>df[cols]\<close> for a list of labels: a \<^verbatim>\<open>KeyError\<close> when a label is missing; otherwise,
  for each label in turn, every column that has it.
\<close>

definition select_columns :: "string list \<Rightarrow> 'n dataframe \<Rightarrow> error + 'n dataframe" where
  "select_columns cs df =
     (case filter (\<lambda>c. c \<notin> set (columns df)) cs of
        m # _ \<Rightarrow> Inl (KeyError m)
      | [] \<Rightarrow> Inr \<lparr>columns = concat (map (\<lambda>c. filter (\<lambda>c'. c' = c) (columns df)) cs),
                  rows = map (\<lambda>r. concat (map (\<lambda>c. cells_of c (columns df) r) cs)) (rows df)\<rparr>)"

text \<open>
  \<^verbatim>\<open>pd.to_numeric(s, errors='coerce')\<close>: missing values and numbers stay, everything else
  is converted, and a value that does not convert becomes missing.
\<close>

definition to_numeric_cell :: "'n pandas \<Rightarrow> 'n cell \<Rightarrow> 'n cell" where
  "to_numeric_cell pd c =
     (case c of Null \<Rightarrow> Null | Num n \<Rightarrow> Num n
      | _ \<Rightarrow> (case parse_numeric pd c of None \<Rightarrow> Null | Some n \<Rightarrow> Num n))"

definition coerce_numeric :: "'n pandas \<Rightarrow> string \<Rightarrow> 'n dataframe \<Rightarrow> error + 'n dataframe" where
  "coerce_numeric pd c df =
     (case get_column c df of
        Inl e \<Rightarrow> Inl e
      | Inr vs \<Rightarrow> Inr (set_column c (map (to_numeric_cell pd) vs) df))"

definition cols :: "string list" where
  "cols = [''order_id'', ''customer_id'', ''order_purchase_timestamp'', ''order_approved_at'',
           ''order_delivered_carrier_date'', ''order_delivered_customer_date'',
           ''order_estimated_delivery_date'', ''product_id'', ''seller_id'', ''price'',
           ''freight_value'', ''payment_type'', ''payment_installments'',
           ''payment_value'', ''review_score'']"

text \<open>
  The three merges of the fact transformer, each table looked up when its merge is
  reached.
\<close>

definition merge_orders ::
  "(string \<rightharpoonup> 'n dataframe) \<Rightarrow> 'n dataframe \<Rightarrow> error + 'n dataframe" where
  "merge_orders tabs orders =
     try_bind (table tabs ''olist_order_items_dataset'') (\<lambda>items.
     try_bind (merge_left ''order_id'' orders items) (\<lambda>m1.
     try_bind (table tabs ''olist_order_payments_dataset'') (\<lambda>payments.
     try_bind (merge_left ''order_id'' m1 payments) (\<lambda>m2.
     try_bind (table tabs ''olist_order_reviews_dataset'') (\<lambda>reviews.
     merge_left ''order_id'' m2 reviews)))))"

text \<open>
  The fact transformer takes the whole dictionary. Its first statement changes the
  orders frame of the dictionary, so the dictionary is returned as the call leaves it,
  also when a later statement raises.
\<close>

definition transform_fact_orders ::
  "'n pandas \<Rightarrow> (string \<rightharpoonup> 'n dataframe)
     \<Rightarrow> (error + 'n dataframe) \<times> (string \<rightharpoonup> 'n dataframe)" where
  "transform_fact_orders pd tabs =
     (case try_bind (table tabs ''olist_orders_dataset'') (parse_purchase_timestamp pd) of
        Inl e \<Rightarrow> (Inl e, tabs)
      | Inr orders \<Rightarrow>
          (try_bind (merge_orders tabs orders) (\<lambda>merged.
           try_bind (select_columns cols merged) (\<lambda>m1.
           try_bind (coerce_numeric pd ''payment_value'' m1) (\<lambda>m2.
           coerce_numeric pd ''review_score'' m2))),
           tabs(''olist_orders_dataset'' \<mapsto> orders)))"

section \<open>Load phase\<close>

text \<open>
  What the program changes outside its own memory: the tables of the target store, the
  log file and the console.
\<close>

datatype log_record =
    Info string              \<comment> \<open>\<^verbatim>\<open>logging.info\<close>\<close>
  | Exception string error   \<comment> \<open>\<^verbatim>\<open>logging.exception\<close>: the message and the exception with its traceback\<close>

record 'n world =
  dfs :: "string \<rightharpoonup> 'n dataframe"      \<comment> \<open>the module's dictionary of extracted tables\<close>
  target :: "string \<rightharpoonup> 'n dataframe"   \<comment> \<open>the tables of the target store\<close>
  log :: "log_record list"                   \<comment> \<open>\<^verbatim>\<open>olist.log\<close>\<close>
  console :: "string list"                   \<comment> \<open>standard output\<close>

text \<open>
  Whether a write to the target store succeeds is the store's affair: \<open>sink name df\<close> is
  \<open>None\<close> when writing \<open>df\<close> as table \<open>name\<close> succeeds, and otherwise the exception
  together with what is left of that table. \<^verbatim>\<open>if_exists='replace'\<close> replaces the table
  of that name; a write touches no other table.
\<close>

type_synonym 'n sink = "string \<Rightarrow> 'n dataframe \<Rightarrow> (error \<times> 'n dataframe option) option"

definition load_table ::
  "'n sink \<Rightarrow> 'n dataframe \<Rightarrow> string \<Rightarrow> 'n world \<Rightarrow> (error + unit) \<times> 'n world" where
  "load_table sink df table_name w =
     (case sink table_name df of
        Some (e, rest) \<Rightarrow> (Inl e, w\<lparr>target := (target w)(table_name := rest)\<rparr>)
      | None \<Rightarrow>
          (Inr (), w\<lparr>target := (target w)(table_name \<mapsto> df),
                      log := log w @ [Info (''Loaded table: '' @ table_name)],
                      console := console w @ [''Loaded: '' @ table_name]\<rparr>))"

section \<open>Running the job\<close>

record 'n star =
  dim_customers :: "'n dataframe"
  dim_sellers :: "'n dataframe"
  dim_products :: "'n dataframe"
  dim_date :: "'n dataframe"
  fact_orders :: "'n dataframe"

text \<open>
  The five transforms of \<^verbatim>\<open>main\<close>, in its order. The date transformer is handed the
  orders frame of the dictionary, which it changes.
\<close>

definition transforms ::
  "'n pandas \<Rightarrow> (string \<rightharpoonup> 'n dataframe) \<Rightarrow> (error + 'n star) \<times> (string \<rightharpoonup> 'n dataframe)" where
  "transforms pd tabs =
     (case try_bind (table tabs ''olist_customers_dataset'') (transform_dim_customers pd) of
        Inl e \<Rightarrow> (Inl e, tabs)
      | Inr c \<Rightarrow>
     (case try_bind (table tabs ''olist_sellers_dataset'') transform_dim_sellers of
        Inl e \<Rightarrow> (Inl e, tabs)
      | Inr s \<Rightarrow>
     (case try_bind (table tabs ''olist_products_dataset'') (\<lambda>products.
           try_bind (table tabs ''product_category_name_translation'')
             (transform_dim_products products)) of
        Inl e \<Rightarrow> (Inl e, tabs)
      | Inr p \<Rightarrow>
     (case try_bind (table tabs ''olist_orders_dataset'') (transform_dim_date pd) of
        Inl e \<Rightarrow> (Inl e, tabs)
      | Inr (orders, d) \<Rightarrow>
     (case transform_fact_orders pd (tabs(''olist_orders_dataset'' \<mapsto> orders)) of
        (Inl e, tabs1) \<Rightarrow> (Inl e, tabs1)
      | (Inr f, tabs1) \<Rightarrow>
          (Inr \<lparr>dim_customers = c, dim_sellers = s, dim_products = p, dim_date = d,
                fact_orders = f\<rparr>, tabs1))))))"

text \<open>The five loads of \<^verbatim>\<open>main\<close>, in its order.\<close>

definition and_then ::
  "(error + unit) \<times> 'n world \<Rightarrow> ('n world \<Rightarrow> (error + unit) \<times> 'n world)
     \<Rightarrow> (error + unit) \<times> 'n world" where
  "and_then r step = (case r of (Inl e, w) \<Rightarrow> (Inl e, w) | (Inr _, w) \<Rightarrow> step w)"

definition loads :: "'n sink \<Rightarrow> 'n star \<Rightarrow> 'n world \<Rightarrow> (error + unit) \<times> 'n world" where
  "loads sink t w =
     and_then (and_then (and_then (and_then
       (load_table sink (dim_customers t) ''dim_customers'' w)
       (load_table sink (dim_sellers t) ''dim_sellers''))
       (load_table sink (dim_products t) ''dim_products''))
       (load_table sink (dim_date t) ''dim_date''))
       (load_table sink (fact_orders t) ''fact_orders'')"

text \<open>The body of the \<^verbatim>\<open>try\<close> statement of \<^verbatim>\<open>main\<close>.\<close>

definition main_try :: "'n pandas \<Rightarrow> 'n sink \<Rightarrow> 'n world \<Rightarrow> (error + unit) \<times> 'n world" where
  "main_try pd sink w =
     (case transforms pd (dfs w) of
        (Inl e, tabs) \<Rightarrow> (Inl e, w\<lparr>dfs := tabs\<rparr>)
      | (Inr t, tabs) \<Rightarrow> loads sink t (w\<lparr>dfs := tabs\<rparr>))"

text \<open>
  \<^verbatim>\<open>except Exception\<close>: the exception is written to the log with its traceback, one
  line goes to the console, and \<^verbatim>\<open>main\<close> returns.
\<close>

definition main :: "'n pandas \<Rightarrow> 'n sink \<Rightarrow> 'n world \<Rightarrow> 'n world" where
  "main pd sink w =
     (case main_try pd sink w of
        (Inr _, w1) \<Rightarrow> w1
      | (Inl e, w1) \<Rightarrow>
          w1\<lparr>log := log w1 @ [Exception ''ETL job failed'' e],
             console := console w1 @ [''ETL job failed. Check log for details.'']\<rparr>)"

section \<open>Extract phase and the script\<close>

record 'n source =
  catalog :: "error + string list"
    \<comment> \<open>the names of the tables of schema \<^verbatim>\<open>public\<close>, or the failure of that query\<close>
  read_table :: "string \<Rightarrow> error + 'n dataframe"
    \<comment> \<open>\<^verbatim>\<open>SELECT * FROM table\<close>, or its failure\<close>

fun read_all ::
  "(string \<Rightarrow> error + 'n dataframe) \<Rightarrow> (string \<rightharpoonup> 'n dataframe) \<Rightarrow> string list
     \<Rightarrow> error + (string \<rightharpoonup> 'n dataframe)" where
  "read_all rd acc [] = Inr acc"
| "read_all rd acc (t # ts) =
     (case rd t of Inl e \<Rightarrow> Inl e | Inr df \<Rightarrow> read_all rd (acc(t \<mapsto> df)) ts)"

definition extract_all_tables :: "'n source \<Rightarrow> error + (string \<rightharpoonup> 'n dataframe)" where
  "extract_all_tables engine =
     (case catalog engine of
        Inl e \<Rightarrow> Inl e
      | Inr tables \<Rightarrow> read_all (read_table engine) Map.empty tables)"

text \<open>
  The script from top to bottom. \<^verbatim>\<open>dfs = extract_all_tables(source_engine)\<close> is a
  statement of the module, executed before \<^verbatim>\<open>main()\<close> is called and outside its
  \<^verbatim>\<open>try\<close>: an exception there ends the interpreter, which prints the traceback and
  exits with status 1. After \<^verbatim>\<open>main()\<close> has returned the script ends and the status
  is 0.
\<close>

record 'n process =
  final :: "'n world"
  uncaught :: "error option"
  exit_status :: nat

definition run_script :: "'n pandas \<Rightarrow> 'n sink \<Rightarrow> 'n source \<Rightarrow> 'n world \<Rightarrow> 'n process" where
  "run_script pd sink engine w =
     (case extract_all_tables engine of
        Inl e \<Rightarrow> \<lparr>final = w, uncaught = Some e, exit_status = 1\<rparr>
      | Inr tabs \<Rightarrow>
          \<lparr>final = main pd sink (w\<lparr>dfs := tabs\<rparr>), uncaught = None, exit_status = 0\<rparr>)"

section \<open>Auxiliary definitions\<close>

text \<open>Every row has one cell for each label.\<close>

definition rect :: "'n dataframe \<Rightarrow> bool" where
  "rect df \<longleftrightarrow> (\<forall>r \<in> set (rows df). length r = length (columns df))"

definition numeric_or_null :: "'n cell \<Rightarrow> bool" where
  "numeric_or_null c = (case c of Null \<Rightarrow> True | Num n \<Rightarrow> True | _ \<Rightarrow> False)"

text \<open>
  The five loads of \<^verbatim>\<open>main\<close> as a list, the same loads run by recursion over that list,
  and the world after the loads \<open>ok\<close> have succeeded.
\<close>

definition load_plan :: "'n star \<Rightarrow> (string \<times> 'n dataframe) list" where
  "load_plan t = [(''dim_customers'', dim_customers t), (''dim_sellers'', dim_sellers t),
                  (''dim_products'', dim_products t), (''dim_date'', dim_date t),
                  (''fact_orders'', fact_orders t)]"

fun load_each ::
  "'n sink \<Rightarrow> (string \<times> 'n dataframe) list \<Rightarrow> 'n world \<Rightarrow> (error + unit) \<times> 'n world" where
  "load_each sink [] w = (Inr (), w)"
| "load_each sink (p # plan) w =
     and_then (load_table sink (snd p) (fst p) w) (load_each sink plan)"

definition put ::
  "string \<times> 'n dataframe \<Rightarrow> (string \<rightharpoonup> 'n dataframe) \<Rightarrow> (string \<rightharpoonup> 'n dataframe)" where
  "put p tg = tg(fst p \<mapsto> snd p)"

definition loaded :: "(string \<times> 'n dataframe) list \<Rightarrow> 'n world \<Rightarrow> 'n world" where
  "loaded ok w =
     w\<lparr>target := fold put ok (target w),
       log := log w @ map (\<lambda>p. Info (''Loaded table: '' @ fst p)) ok,
       console := console w @ map (\<lambda>p. ''Loaded: '' @ fst p) ok\<rparr>"

text \<open>A label that does not end in the letter of a merge suffix.\<close>

definition plain :: "string \<Rightarrow> bool" where
  "plain c \<longleftrightarrow> c \<noteq> [] \<and> last c \<noteq> CHR ''x'' \<and> last c \<noteq> CHR ''y''"

section \<open>Example data\<close>

text \<open>
  A small instance with integers as numbers, used to run the definitions: a customer and
  a product that are read twice, a category with two translations and one with none, an
  order with two items, an order without items, payments and reviews, and texts where
  numbers are expected.
\<close>

definition ex_pd :: "int pandas" where
  "ex_pd = \<lparr>py_str = (\<lambda>c. case c of Str s \<Rightarrow> s | _ \<Rightarrow> ''nan''),
            parse_datetime = (\<lambda>c.
              if c = Str ''2018-01-02 10:00'' then
                Some \<lparr>ts_date = \<lparr>year = 2018, month = 1, day = 2\<rparr>, ts_time = 36000\<rparr>
              else if c = Str ''2018-01-02 23:00'' then
                Some \<lparr>ts_date = \<lparr>year = 2018, month = 1, day = 2\<rparr>, ts_time = 82800\<rparr>
              else if c = Str ''2017-10-02'' then
                Some \<lparr>ts_date = \<lparr>year = 2017, month = 10, day = 2\<rparr>, ts_time = 0\<rparr>
              else None),
            parse_numeric = (\<lambda>c. if c = Str ''5'' then Some 5 else None),
            num_of_int = (\<lambda>i. i)\<rparr>"

definition ex_customers :: "int dataframe" where
  "ex_customers =
     \<lparr>columns = [''customer_id'', ''customer_unique_id''],
      rows = [[Str ''c1'', Num 1], [Str ''c2'', Num 2], [Str ''c1'', Num 3]]\<rparr>"

definition ex_dim_customers :: "int dataframe" where
  "ex_dim_customers =
     \<lparr>columns = [''customer_id'', ''customer_unique_id''],
      rows = [[Str ''c1'', Str ''nan''], [Str ''c2'', Str ''nan'']]\<rparr>"

definition ex_sellers :: "int dataframe" where
  "ex_sellers =
     \<lparr>columns = [''seller_id'', ''seller_city''],
      rows = [[Str ''s1'', Str ''curitiba''], [Str ''s1'', Str ''recife'']]\<rparr>"

definition ex_dim_sellers :: "int dataframe" where
  "ex_dim_sellers =
     \<lparr>columns = [''seller_id'', ''seller_city''], rows = [[Str ''s1'', Str ''curitiba'']]\<rparr>"

definition ex_products :: "int dataframe" where
  "ex_products =
     \<lparr>columns = [''product_id'', ''product_category_name''],
      rows = [[Str ''p1'', Str ''beleza''], [Str ''p2'', Str ''pcs''],
              [Str ''p1'', Str ''pcs'']]\<rparr>"

definition ex_translation :: "int dataframe" where
  "ex_translation =
     \<lparr>columns = [''product_category_name'', ''product_category_name_english''],
      rows = [[Str ''beleza'', Str ''beauty''], [Str ''beleza'', Str ''health'']]\<rparr>"

definition ex_merged_products :: "int dataframe" where
  "ex_merged_products =
     \<lparr>columns = [''product_id'', ''product_category_name'', ''product_category_name_english''],
      rows = [[Str ''p1'', Str ''beleza'', Str ''beauty''],
              [Str ''p1'', Str ''beleza'', Str ''health''],
              [Str ''p2'', Str ''pcs'', Null],
              [Str ''p1'', Str ''pcs'', Null]]\<rparr>"

definition ex_dim_products :: "int dataframe" where
  "ex_dim_products =
     \<lparr>columns = [''product_id'', ''product_category_name'', ''product_category_name_english''],
      rows = [[Str ''p1'', Str ''beleza'', Str ''beauty''], [Str ''p2'', Str ''pcs'', Null]]\<rparr>"

definition ex_orders :: "int dataframe" where
  "ex_orders =
     \<lparr>columns = [''order_id'', ''customer_id'', ''order_purchase_timestamp'',
                 ''order_approved_at'', ''order_delivered_carrier_date'',
                 ''order_delivered_customer_date'', ''order_estimated_delivery_date''],
      rows = [[Str ''o1'', Str ''c1'', Str ''2018-01-02 10:00'', Null, Null, Null, Null],
              [Str ''o2'', Str ''c2'', Str ''2018-01-02 23:00'', Null, Null, Null, Null],
              [Str ''o3'', Str ''c2'', Str ''2017-10-02'', Null, Null, Null, Null]]\<rparr>"

definition ex_ts1 :: "int cell" where
  "ex_ts1 = Ts \<lparr>ts_date = \<lparr>year = 2018, month = 1, day = 2\<rparr>, ts_time = 36000\<rparr>"

definition ex_ts2 :: "int cell" where
  "ex_ts2 = Ts \<lparr>ts_date = \<lparr>year = 2018, month = 1, day = 2\<rparr>, ts_time = 82800\<rparr>"

definition ex_ts3 :: "int cell" where
  "ex_ts3 = Ts \<lparr>ts_date = \<lparr>year = 2017, month = 10, day = 2\<rparr>, ts_time = 0\<rparr>"

definition ex_orders_parsed :: "int dataframe" where
  "ex_orders_parsed =
     \<lparr>columns = [''order_id'', ''customer_id'', ''order_purchase_timestamp'',
                 ''order_approved_at'', ''order_delivered_carrier_date'',
                 ''order_delivered_customer_date'', ''order_estimated_delivery_date''],
      rows = [[Str ''o1'', Str ''c1'', ex_ts1, Null, Null, Null, Null],
              [Str ''o2'', Str ''c2'', ex_ts2, Null, Null, Null, Null],
              [Str ''o3'', Str ''c2'', ex_ts3, Null, Null, Null, Null]]\<rparr>"

definition ex_dim_date :: "int dataframe" where
  "ex_dim_date =
     \<lparr>columns = [''date'', ''day'', ''month'', ''year'', ''weekday''],
      rows = [[Ts \<lparr>ts_date = \<lparr>year = 2018, month = 1, day = 2\<rparr>, ts_time = 0\<rparr>,
               Num 2, Num 1, Num 2018, Num 1],
              [Ts \<lparr>ts_date = \<lparr>year = 2017, month = 10, day = 2\<rparr>, ts_time = 0\<rparr>,
               Num 2, Num 10, Num 2017, Num 0]]\<rparr>"




definition ex_items :: "int dataframe" where
  "ex_items =
     \<lparr>columns = [''order_id'', ''product_id'', ''seller_id'', ''price'', ''freight_value''],
      rows = [[Str ''o1'', Str ''p1'', Str ''s1'', Num 10, Num 1],
              [Str ''o1'', Str ''p2'', Str ''s1'', Num 20, Num 2]]\<rparr>"

definition ex_payments :: "int dataframe" where
  "ex_payments =
     \<lparr>columns = [''order_id'', ''payment_type'', ''payment_installments'', ''payment_value''],
      rows = [[Str ''o1'', Str ''card'', Num 1, Str ''5'']]\<rparr>"

definition ex_reviews :: "int dataframe" where
  "ex_reviews =
     \<lparr>columns = [''review_id'', ''order_id'', ''review_score''],
      rows = [[Str ''r1'', Str ''o2'', Str ''good'']]\<rparr>"

definition ex_merged1 :: "int dataframe" where
  "ex_merged1 =
     \<lparr>columns = [''order_id'', ''customer_id'', ''order_purchase_timestamp'',
                 ''order_approved_at'', ''order_delivered_carrier_date'',
                 ''order_delivered_customer_date'', ''order_estimated_delivery_date'',
                 ''product_id'', ''seller_id'', ''price'', ''freight_value''],
      rows = [[Str ''o1'', Str ''c1'', ex_ts1, Null, Null, Null, Null,
               Str ''p1'', Str ''s1'', Num 10, Num 1],
              [Str ''o1'', Str ''c1'', ex_ts1, Null, Null, Null, Null,
               Str ''p2'', Str ''s1'', Num 20, Num 2],
              [Str ''o2'', Str ''c2'', ex_ts2, Null, Null, Null, Null,
               Null, Null, Null, Null],
              [Str ''o3'', Str ''c2'', ex_ts3, Null, Null, Null, Null,
               Null, Null, Null, Null]]\<rparr>"

definition ex_merged2 :: "int dataframe" where
  "ex_merged2 =
     \<lparr>columns = [''order_id'', ''customer_id'', ''order_purchase_timestamp'',
                 ''order_approved_at'', ''order_delivered_carrier_date'',
                 ''order_delivered_customer_date'', ''order_estimated_delivery_date'',
                 ''product_id'', ''seller_id'', ''price'', ''freight_value'',
                 ''payment_type'', ''payment_installments'', ''payment_value''],
      rows = [[Str ''o1'', Str ''c1'', ex_ts1, Null, Null, Null, Null,
               Str ''p1'', Str ''s1'', Num 10, Num 1, Str ''card'', Num 1, Str ''5''],
              [Str ''o1'', Str ''c1'', ex_ts1, Null, Null, Null, Null,
               Str ''p2'', Str ''s1'', Num 20, Num 2, Str ''card'', Num 1, Str ''5''],
              [Str ''o2'', Str ''c2'', ex_ts2, Null, Null, Null, Null,
               Null, Null, Null, Null, Null, Null, Null],
              [Str ''o3'', Str ''c2'', ex_ts3, Null, Null, Null, Null,
               Null, Null, Null, Null, Null, Null, Null]]\<rparr>"

definition ex_merged3 :: "int dataframe" where
  "ex_merged3 =
     \<lparr>columns = [''order_id'', ''customer_id'', ''order_purchase_timestamp'',
                 ''order_approved_at'', ''order_delivered_carrier_date'',
                 ''order_delivered_customer_date'', ''order_estimated_delivery_date'',
                 ''product_id'', ''seller_id'', ''price'', ''freight_value'',
                 ''payment_type'', ''payment_installments'', ''payment_value'',
                 ''review_id'', ''review_score''],
      rows = [[Str ''o1'', Str ''c1'', ex_ts1, Null, Null, Null, Null,
               Str ''p1'', Str ''s1'', Num 10, Num 1, Str ''card'', Num 1, Str ''5'',
               Null, Null],
              [Str ''o1'', Str ''c1'', ex_ts1, Null, Null, Null, Null,
               Str ''p2'', Str ''s1'', Num 20, Num 2, Str ''card'', Num 1, Str ''5'',
               Null, Null],
              [Str ''o2'', Str ''c2'', ex_ts2, Null, Null, Null, Null,
               Null, Null, Null, Null, Null, Null, Null, Str ''r1'', Str ''good''],
              [Str ''o3'', Str ''c2'', ex_ts3, Null, Null, Null, Null,
               Null, Null, Null, Null, Null, Null, Null, Null, Null]]\<rparr>"

definition ex_selected :: "int dataframe" where
  "ex_selected =
     \<lparr>columns = cols,
      rows = [[Str ''o1'', Str ''c1'', ex_ts1, Null, Null, Null, Null,
               Str ''p1'', Str ''s1'', Num 10, Num 1, Str ''card'', Num 1, Str ''5'', Null],
              [Str ''o1'', Str ''c1'', ex_ts1, Null, Null, Null, Null,
               Str ''p2'', Str ''s1'', Num 20, Num 2, Str ''card'', Num 1, Str ''5'', Null],
              [Str ''o2'', Str ''c2'', ex_ts2, Null, Null, Null, Null,
               Null, Null, Null, Null, Null, Null, Null, Str ''good''],
              [Str ''o3'', Str ''c2'', ex_ts3, Null, Null, Null, Null,
               Null, Null, Null, Null, Null, Null, Null, Null]]\<rparr>"

definition ex_coerced :: "int dataframe" where
  "ex_coerced =
     \<lparr>columns = cols,
      rows = [[Str ''o1'', Str ''c1'', ex_ts1, Null, Null, Null, Null,
               Str ''p1'', Str ''s1'', Num 10, Num 1, Str ''card'', Num 1, Num 5, Null],
              [Str ''o1'', Str ''c1'', ex_ts1, Null, Null, Null, Null,
               Str ''p2'', Str ''s1'', Num 20, Num 2, Str ''card'', Num 1, Num 5, Null],
              [Str ''o2'', Str ''c2'', ex_ts2, Null, Null, Null, Null,
               Null, Null, Null, Null, Null, Null, Null, Str ''good''],
              [Str ''o3'', Str ''c2'', ex_ts3, Null, Null, Null, Null,
               Null, Null, Null, Null, Null, Null, Null, Null]]\<rparr>"

definition ex_fact_orders :: "int dataframe" where
  "ex_fact_orders =
     \<lparr>columns = cols,
      rows = [[Str ''o1'', Str ''c1'', ex_ts1, Null, Null, Null, Null,
               Str ''p1'', Str ''s1'', Num 10, Num 1, Str ''card'', Num 1, Num 5, Null],
              [Str ''o1'', Str ''c1'', ex_ts1, Null, Null, Null, Null,
               Str ''p2'', Str ''s1'', Num 20, Num 2, Str ''card'', Num 1, Num 5, Null],
              [Str ''o2'', Str ''c2'', ex_ts2, Null, Null, Null, Null,
               Null, Null, Null, Null, Null, Null, Null, Null],
              [Str ''o3'', Str ''c2'', ex_ts3, Null, Null, Null, Null,
               Null, Null, Null, Null, Null, Null, Null, Null]]\<rparr>"

definition ex_dfs :: "string \<rightharpoonup> int dataframe" where
  "ex_dfs = [''olist_customers_dataset'' \<mapsto> ex_customers,
             ''olist_sellers_dataset'' \<mapsto> ex_sellers,
             ''olist_products_dataset'' \<mapsto> ex_products,
             ''product_category_name_translation'' \<mapsto> ex_translation,
             ''olist_orders_dataset'' \<mapsto> ex_orders,
             ''olist_order_items_dataset'' \<mapsto> ex_items,
             ''olist_order_payments_dataset'' \<mapsto> ex_payments,
             ''olist_order_reviews_dataset'' \<mapsto> ex_reviews]"

definition ex_star :: "int star" where
  "ex_star = \<lparr>dim_customers = ex_dim_customers, dim_sellers = ex_dim_sellers,
              dim_products = ex_dim_products, dim_date = ex_dim_date,
              fact_orders = ex_fact_orders\<rparr>"

text \<open>A target store that refuses the third table, and a source store that is down.\<close>

definition ex_sink :: "int sink" where
  "ex_sink name df =
     (if name = ''dim_products'' then Some (DatabaseError ''disk full'', None) else None)"

definition ex_world :: "int world" where
  "ex_world = \<lparr>dfs = ex_dfs, target = Map.empty, log = [], console = []\<rparr>"

definition ex_engine_down :: "int source" where
  "ex_engine_down =
     \<lparr>catalog = Inl (DatabaseError ''connection refused''),
      read_table = (\<lambda>t. Inl (DatabaseError ''connection refused''))\<rparr>"

definition ex_engine :: "int source" where
  "ex_engine = \<lparr>catalog = Inr [''olist_customers_dataset''],
                read_table = (\<lambda>t. Inr ex_customers)\<rparr>"

definition ex_world_failed :: "int world" where
  "ex_world_failed =
     \<lparr>dfs = ex_dfs(''olist_orders_dataset'' \<mapsto> ex_orders_parsed),
      target = (Map.empty(''dim_customers'' \<mapsto> ex_dim_customers,
                  ''dim_sellers'' \<mapsto> ex_dim_sellers))(''dim_products'' := None),
      log = [Info ''Loaded table: dim_customers'', Info ''Loaded table: dim_sellers''],
      console = [''Loaded: dim_customers'', ''Loaded: dim_sellers'']\<rparr>"

section \<open>Properties of the library model\<close>

lemma keep_first_keys:
  "set (map key (keep_first key seen xs)) = set (map key xs) - set seen"
  by (induction xs arbitrary: seen) auto

lemma keep_first_distinct:
  "distinct (map key (keep_first key seen xs))"
proof (induction xs arbitrary: seen)
  case Nil
  show ?case by simp
next
  case (Cons x xs)
  have "key x \<notin> set (map key (keep_first key (key x # seen) xs))"
    unfolding keep_first_keys by simp
  with Cons show ?case by simp
qed

lemma keep_first_length:
  "length (keep_first key [] xs) = card (set (map key xs))"
proof -
  have "length (keep_first key [] xs) = length (map key (keep_first key [] xs))"
    by simp
  also have "\<dots> = card (set (map key (keep_first key [] xs)))"
    using keep_first_distinct [of key "[]" xs] by (simp only: distinct_card)
  also have "\<dots> = card (set (map key xs))"
    unfolding keep_first_keys by simp
  finally show ?thesis .
qed

lemma cells_of_map_column_other:
  "c \<noteq> c' \<Longrightarrow> cells_of c labels (map_column c' f labels r) = cells_of c labels r"
proof (induction labels arbitrary: r)
  case Nil
  show ?case by (simp add: cells_of_def map_column_def)
next
  case (Cons a labels)
  show ?case
  proof (cases r)
    case Nil
    then show ?thesis by (simp add: cells_of_def map_column_def)
  next
    case (Cons v r')
    with Cons.IH [OF Cons.prems, of r'] Cons.prems show ?thesis
      by (simp add: cells_of_def map_column_def)
  qed
qed

lemma cells_of_Nil [simp]: "cells_of c [] r = []" "cells_of c labels [] = []"
  by (simp_all add: cells_of_def)

lemma cells_of_Cons [simp]:
  "cells_of c (a # labels) (v # r) = (if a = c then v # cells_of c labels r else cells_of c labels r)"
  by (simp add: cells_of_def)

lemma map_column_Nil [simp]: "map_column c f [] r = []" "map_column c f labels [] = []"
  by (simp_all add: map_column_def)

lemma map_column_Cons [simp]:
  "map_column c f (a # labels) (v # r) = (if a = c then f v else v) # map_column c f labels r"
  by (simp add: map_column_def)

lemma cells_of_map_column_same:
  "cells_of c labels (map_column c f labels r) = map f (cells_of c labels r)"
proof (induction labels arbitrary: r)
  case Nil
  show ?case by simp
next
  case (Cons a labels)
  then show ?case by (cases r) simp_all
qed

lemma length_map_column:
  "length r = length labels \<Longrightarrow> length (map_column c f labels r) = length labels"
  by (simp add: map_column_def)

lemma length_cells_of:
  "length r = length labels \<Longrightarrow> length (cells_of c labels r) = count_list labels c"
proof (induction labels arbitrary: r)
  case Nil
  show ?case by simp
next
  case (Cons a labels)
  then show ?case by (cases r) simp_all
qed

lemma cells_of_set_one:
  assumes "length r = length labels" "count_list labels c = 1"
  shows "cells_of c labels (map_column c (\<lambda>_. v) labels r) = [v]"
proof -
  have "length (cells_of c labels r) = 1"
    using assms by (simp add: length_cells_of)
  then obtain x where "cells_of c labels r = [x]"
    by (cases "cells_of c labels r") simp_all
  then show ?thesis by (simp add: cells_of_map_column_same)
qed

lemma map_column_idem:
  "map_column c (\<lambda>_. v) labels (map_column c (\<lambda>_. v) labels r) = map_column c (\<lambda>_. v) labels r"
proof (induction labels arbitrary: r)
  case Nil
  show ?case by simp
next
  case (Cons a labels)
  then show ?case by (cases r) simp_all
qed

lemma wf_frame_rect: "wf_frame df \<Longrightarrow> rect df"
  by (simp add: wf_frame_def rect_def list_all_iff)

lemma column_of_set_column:
  assumes "rect df" "count_list (columns df) c = 1" "length vs = length (rows df)"
  shows "concat (key_values c (set_column c vs df)) = vs"
proof -
  have "\<forall>r \<in> set rs. length r = length labels \<Longrightarrow> length vs = length rs \<Longrightarrow>
        concat (map (cells_of c labels)
          (map (\<lambda>p. map_column c (\<lambda>_. snd p) labels (fst p)) (zip rs vs))) = vs"
    if "count_list labels c = 1" for rs :: "'a cell list list" and labels vs
  proof (induction rs arbitrary: vs)
    case Nil
    then show ?case by simp
  next
    case (Cons r rs)
    then obtain v vs' where vs: "vs = v # vs'" by (cases vs) simp_all
    with Cons that show ?case by (simp add: cells_of_set_one)
  qed
  from this [OF assms(2), of "rows df" vs] assms show ?thesis
    by (simp add: key_values_def set_column_def rect_def)
qed

lemma other_column_of_set_column:
  assumes "length vs = length (rows df)" "c \<noteq> c'"
  shows "key_values c (set_column c' vs df) = key_values c df"
proof -
  have "length vs = length rs \<Longrightarrow>
        map (cells_of c labels) (map (\<lambda>p. map_column c' (\<lambda>_. snd p) labels (fst p)) (zip rs vs))
        = map (cells_of c labels) rs" for rs :: "'a cell list list" and labels vs
  proof (induction rs arbitrary: vs)
    case Nil
    then show ?case by simp
  next
    case (Cons r rs)
    then obtain v vs' where vs: "vs = v # vs'" by (cases vs) simp_all
    with Cons assms(2) show ?case by (simp add: cells_of_map_column_other)
  qed
  from this [of vs "rows df"] assms show ?thesis
    by (simp add: key_values_def set_column_def)
qed

lemma to_datetime_length: "to_datetime pd raw = Inr ts \<Longrightarrow> length ts = length raw"
  by (induction raw arbitrary: ts) (auto split: option.splits sum.splits)

lemma to_datetime_cell_idem:
  "to_datetime_cell pd c = Some v \<Longrightarrow> to_datetime_cell pd v = Some v"
  by (cases c) (auto simp: to_datetime_cell_def)

lemma to_datetime_idem: "to_datetime pd raw = Inr ts \<Longrightarrow> to_datetime pd ts = Inr ts"
  by (induction raw arbitrary: ts) (auto split: option.splits sum.splits dest: to_datetime_cell_idem)

lemma length_column:
  assumes "rect df" "count_list (columns df) c = 1"
  shows "length (concat (key_values c df)) = length (rows df)"
proof -
  have "\<forall>r \<in> set rs. length r = length labels \<Longrightarrow>
        length (concat (map (cells_of c labels) rs)) = length rs"
    if "count_list labels c = 1" for rs :: "'a cell list list" and labels
    using that by (induction rs) (simp_all add: length_cells_of)
  from this [OF assms(2), of "rows df"] assms(1) show ?thesis
    by (simp add: key_values_def rect_def)
qed

lemma parse_purchase_timestamp_frame:
  assumes "rect df" "parse_purchase_timestamp pd df = Inr df1"
  shows "columns df1 = columns df" "rect df1" "length (rows df1) = length (rows df)"
    "c \<noteq> ''order_purchase_timestamp'' \<Longrightarrow> key_values c df1 = key_values c df"
    "to_datetime pd (concat (key_values ''order_purchase_timestamp'' df))
       = Inr (concat (key_values ''order_purchase_timestamp'' df1))"
    "count_list (columns df) ''order_purchase_timestamp'' = 1"
proof -
  let ?c = "''order_purchase_timestamp''"
  let ?raw = "concat (key_values ?c df)"
  from assms(2) obtain ts where
    one: "count_list (columns df) ?c = 1" and ts: "to_datetime pd ?raw = Inr ts"
    and df1: "df1 = set_column ?c ts df"
    by (auto simp: parse_purchase_timestamp_def get_column_def split: if_splits sum.splits)
  have len: "length ts = length (rows df)"
    using to_datetime_length [OF ts] length_column [OF assms(1) one] by simp
  show "columns df1 = columns df" by (simp add: df1 set_column_def)
  show "rect df1"
    using assms(1) len by (auto simp: df1 set_column_def rect_def length_map_column dest!: set_zip_leftD)
  show "length (rows df1) = length (rows df)" using len by (simp add: df1 set_column_def)
  show "key_values c df1 = key_values c df" if "c \<noteq> ?c"
    using other_column_of_set_column [OF len that] by (simp add: df1)
  show "to_datetime pd ?raw = Inr (concat (key_values ?c df1))"
    using column_of_set_column [OF assms(1) one len] ts by (simp add: df1)
  show "count_list (columns df) ?c = 1" by (rule one)
qed

lemma set_column_same:
  assumes "df1 = set_column c vs df" "length vs = length (rows df)"
  shows "set_column c vs df1 = df1"
proof -
  have "length vs = length rs \<Longrightarrow>
     map (\<lambda>p. map_column c (\<lambda>_. snd p) labels (fst p))
       (zip (map (\<lambda>p. map_column c (\<lambda>_. snd p) labels (fst p)) (zip rs vs)) vs)
     = map (\<lambda>p. map_column c (\<lambda>_. snd p) labels (fst p)) (zip rs vs)"
    for rs :: "'a cell list list" and labels
  proof (induction rs arbitrary: vs)
    case Nil
    then show ?case by simp
  next
    case (Cons r rs)
    then obtain v vs' where "vs = v # vs'" by (cases vs) simp_all
    with Cons show ?case by (simp add: map_column_idem)
  qed
  from this [of "rows df" "columns df"] assms show ?thesis
    by (simp add: set_column_def)
qed

lemma parse_purchase_timestamp_idem:
  assumes "rect df" "parse_purchase_timestamp pd df = Inr df1"
  shows "parse_purchase_timestamp pd df1 = Inr df1"
proof -
  let ?c = "''order_purchase_timestamp''"
  let ?raw = "concat (key_values ?c df)"
  from assms(2) obtain ts where
    one: "count_list (columns df) ?c = 1" and ts: "to_datetime pd ?raw = Inr ts"
    and df1: "df1 = set_column ?c ts df"
    by (auto simp: parse_purchase_timestamp_def get_column_def split: if_splits sum.splits)
  have len: "length ts = length (rows df)"
    using to_datetime_length [OF ts] length_column [OF assms(1) one] by simp
  have cols1: "columns df1 = columns df" by (simp add: df1 set_column_def)
  have col: "concat (key_values ?c df1) = ts"
    using column_of_set_column [OF assms(1) one len] by (simp add: df1)
  have "?c \<in> set (columns df)"
    using one count_list_0_iff [of "columns df" ?c] by (cases "?c \<in> set (columns df)") simp_all
  then have "get_column ?c df1 = Inr ts"
    using one col by (simp add: get_column_def cols1)
  moreover have "to_datetime pd ts = Inr ts" by (rule to_datetime_idem [OF ts])
  moreover have "set_column ?c ts df1 = df1" by (rule set_column_same [OF df1 len])
  ultimately show ?thesis by (simp add: parse_purchase_timestamp_def)
qed

lemma keep_first_find:
  "r \<in> set (keep_first key seen xs) \<Longrightarrow>
   key r \<notin> set seen \<and> find (\<lambda>x. key x = key r) xs = Some r"
proof (induction xs arbitrary: seen)
  case Nil
  then show ?case by simp
next
  case (Cons x xs)
  show ?case
  proof (cases "key x \<in> set seen")
    case True
    with Cons.prems have "r \<in> set (keep_first key seen xs)" by simp
    from Cons.IH [OF this] True show ?thesis by auto
  next
    case False
    show ?thesis
    proof (cases "r = x")
      case True
      with False show ?thesis by simp
    next
      case ne: False
      with False Cons.prems have "r \<in> set (keep_first key (key x # seen) xs)" by simp
      from Cons.IH [OF this] show ?thesis by auto
    qed
  qed
qed

lemma to_numeric_cell_numeric: "numeric_or_null (to_numeric_cell pd c)"
  by (cases c) (auto simp: to_numeric_cell_def numeric_or_null_def split: option.splits)

lemma set_column_cells:
  assumes "r \<in> set (rows (set_column c vs df))" "v \<in> set (cells_of c (columns df) r)"
  shows "v \<in> set vs"
proof -
  from assms(1) obtain r0 v0 where "(r0, v0) \<in> set (zip (rows df) vs)"
    and r: "r = map_column c (\<lambda>_. v0) (columns df) r0"
    by (auto simp: set_column_def)
  then have "v0 \<in> set vs" by (auto dest: set_zip_rightD)
  moreover from assms(2) have "v = v0"
    by (auto simp: r cells_of_map_column_same)
  ultimately show ?thesis by simp
qed

lemma set_column_cells_other:
  assumes "r \<in> set (rows (set_column c' vs df))" "c \<noteq> c'"
  shows "\<exists>r0 \<in> set (rows df). cells_of c (columns df) r = cells_of c (columns df) r0"
proof -
  from assms(1) obtain r0 v0 where "(r0, v0) \<in> set (zip (rows df) vs)"
    and r: "r = map_column c' (\<lambda>_. v0) (columns df) r0"
    by (auto simp: set_column_def)
  then have "r0 \<in> set (rows df)" by (auto dest: set_zip_leftD)
  moreover have "cells_of c (columns df) r = cells_of c (columns df) r0"
    by (simp add: r cells_of_map_column_other [OF assms(2)])
  ultimately show ?thesis by blast
qed

lemma coerce_numeric_cells:
  assumes "coerce_numeric pd c df = Inr df1"
  shows "columns df1 = columns df"
    and "\<forall>r \<in> set (rows df1). \<forall>v \<in> set (cells_of c (columns df1) r). numeric_or_null v"
    and "c' \<noteq> c \<Longrightarrow> \<forall>r \<in> set (rows df1). \<exists>r0 \<in> set (rows df).
           cells_of c' (columns df1) r = cells_of c' (columns df) r0"
proof -
  from assms obtain vs where df1: "df1 = set_column c (map (to_numeric_cell pd) vs) df"
    by (auto simp: coerce_numeric_def split: sum.splits)
  show cs: "columns df1 = columns df" by (simp add: df1 set_column_def)
  show "\<forall>r \<in> set (rows df1). \<forall>v \<in> set (cells_of c (columns df1) r). numeric_or_null v"
  proof (intro ballI)
    fix r v assume "r \<in> set (rows df1)" "v \<in> set (cells_of c (columns df1) r)"
    then have "r \<in> set (rows (set_column c (map (to_numeric_cell pd) vs) df))"
      "v \<in> set (cells_of c (columns df) r)"
      by (simp_all add: df1 cs [unfolded df1])
    then have "v \<in> set (map (to_numeric_cell pd) vs)"
      by (rule set_column_cells)
    then show "numeric_or_null v" by (auto simp: to_numeric_cell_numeric)
  qed
  show "\<forall>r \<in> set (rows df1). \<exists>r0 \<in> set (rows df).
           cells_of c' (columns df1) r = cells_of c' (columns df) r0" if "c' \<noteq> c"
    using set_column_cells_other [OF _ that, of _ _ df] by (simp add: df1 cs [unfolded df1])
qed


lemma loads_load_each: "loads sink t w = load_each sink (load_plan t) w"
  by (simp add: loads_def load_plan_def and_then_def split: prod.splits sum.splits)

lemma load_each_fails:
  "load_each sink plan w = (Inl e, w1) \<Longrightarrow>
   \<exists>ok name df rest left_over.
     plan = ok @ (name, df) # rest \<and> list_all (\<lambda>p. sink (fst p) (snd p) = None) ok
     \<and> sink name df = Some (e, left_over)
     \<and> w1 = (loaded ok w)\<lparr>target := (target (loaded ok w))(name := left_over)\<rparr>"
proof (induction plan arbitrary: w)
  case Nil
  then show ?case by simp
next
  case (Cons p plan)
  show ?case
  proof (cases "sink (fst p) (snd p)")
    case None
    let ?w = "loaded [p] w"
    from None Cons.prems have "load_each sink plan ?w = (Inl e, w1)"
      by (simp add: load_table_def and_then_def loaded_def put_def)
    from Cons.IH [OF this] obtain ok name df rest left_over where
      *: "plan = ok @ (name, df) # rest" "list_all (\<lambda>p. sink (fst p) (snd p) = None) ok"
         "sink name df = Some (e, left_over)"
         "w1 = (loaded ok ?w)\<lparr>target := (target (loaded ok ?w))(name := left_over)\<rparr>"
      by blast
    have "loaded ok ?w = loaded (p # ok) w"
      by (simp add: loaded_def)
    with * None have "p # plan = (p # ok) @ (name, df) # rest
        \<and> list_all (\<lambda>p. sink (fst p) (snd p) = None) (p # ok)
        \<and> sink name df = Some (e, left_over)
        \<and> w1 = (loaded (p # ok) w)\<lparr>target := (target (loaded (p # ok) w))(name := left_over)\<rparr>"
      by simp
    then show ?thesis by blast
  next
    case (Some a)
    obtain e' left_over where a: "a = (e', left_over)" by (cases a)
    with Some Cons.prems have "e' = e" "w1 = w\<lparr>target := (target w)(fst p := left_over)\<rparr>"
      by (simp_all add: load_table_def and_then_def)
    with Some a have "p # plan = [] @ (fst p, snd p) # plan
        \<and> list_all (\<lambda>p. sink (fst p) (snd p) = None) []
        \<and> sink (fst p) (snd p) = Some (e, left_over)
        \<and> w1 = (loaded [] w)\<lparr>target := (target (loaded [] w))(fst p := left_over)\<rparr>"
      by (simp add: loaded_def)
    then show ?thesis by blast
  qed
qed

lemma fold_update_other:
  "n \<notin> fst ` set ok \<Longrightarrow> fold put ok tg n = tg n"
  by (induction ok arbitrary: tg) (auto simp: put_def)

lemma fold_update_same:
  "distinct (map fst ok) \<Longrightarrow> p \<in> set ok \<Longrightarrow>
   fold put ok tg (fst p) = Some (snd p)"
proof (induction ok arbitrary: tg)
  case Nil
  then show ?case by simp
next
  case (Cons a ok)
  show ?case
  proof (cases "p = a")
    case True
    with Cons.prems have "fst a \<notin> fst ` set ok" by auto
    then have "fold put ok (put a tg) (fst a) = put a tg (fst a)"
      by (rule fold_update_other)
    also have "\<dots> = Some (snd a)" by (simp add: put_def)
    finally show ?thesis using True by simp
  next
    case False
    with Cons show ?thesis by simp
  qed
qed

lemma load_plan_names:
  "map fst (load_plan t) = [''dim_customers'', ''dim_sellers'', ''dim_products'', ''dim_date'',
     ''fact_orders'']"
  by (simp add: load_plan_def)

lemma load_plan_distinct: "distinct (map fst (load_plan t))"
  unfolding load_plan_names by simp

section \<open>Properties of the merge\<close>

lemma suffixed_eq_plain:
  assumes "plain c" "sfx = ''_x'' \<or> sfx = ''_y''"
  shows "suffixed ov sfx a = c \<longleftrightarrow> a = c \<and> c \<notin> set ov"
proof (cases "a \<in> set ov")
  case True
  have "last (a @ sfx) = CHR ''x'' \<or> last (a @ sfx) = CHR ''y''"
    using assms(2) by auto
  with assms(1) have "a @ sfx \<noteq> c" by (auto simp: plain_def)
  with True show ?thesis by (auto simp: suffixed_def)
next
  case False
  then show ?thesis by (auto simp: suffixed_def)
qed

lemma count_suffixed:
  assumes "plain c" "sfx = ''_x'' \<or> sfx = ''_y''"
  shows "count_list (map (suffixed ov sfx) ls) c = (if c \<in> set ov then 0 else count_list ls c)"
  by (induction ls) (simp_all add: suffixed_eq_plain [OF assms])

lemma cells_of_suffixed:
  assumes "plain c" "sfx = ''_x'' \<or> sfx = ''_y''"
  shows "cells_of c (map (suffixed ov sfx) ls) r = (if c \<in> set ov then [] else cells_of c ls r)"
proof (induction ls arbitrary: r)
  case Nil
  show ?case by simp
next
  case (Cons a ls)
  then show ?case by (cases r) (simp_all add: suffixed_eq_plain [OF assms])
qed

lemma cells_of_append:
  "length l = length A \<Longrightarrow> cells_of c (A @ B) (l @ x) = cells_of c A l @ cells_of c B x"
  by (simp add: cells_of_def)

lemma cells_of_notin: "c \<notin> set ls \<Longrightarrow> cells_of c ls r = []"
proof (induction ls arbitrary: r)
  case Nil
  show ?case by simp
next
  case (Cons a ls)
  then show ?case by (cases r) auto
qed

lemma merge_left_frame:
  assumes "merge_left k left right = Inr m"
  defines "rc \<equiv> filter (\<lambda>c. c \<noteq> k) (columns right)"
  defines "ov \<equiv> filter (\<lambda>c. c \<in> set rc) (columns left)"
  shows "columns m = map (suffixed ov ''_x'') (columns left) @ map (suffixed ov ''_y'') rc"
    and "rows m = concat (map (join_row k (columns left) (columns right) (rows right)) (rows left))"
    and "count_list (columns left) k = 1" and "count_list (columns right) k = 1"
  using assms(1) unfolding rc_def ov_def
  by (auto simp: merge_left_def Let_def split: if_splits list.splits)

lemma count_le_1_distinct: "distinct ls \<Longrightarrow> count_list ls c \<le> 1"
  by (induction ls) auto

lemma count_zero_notin: "c \<notin> set ls \<Longrightarrow> count_list ls c = 0"
  by (induction ls) auto

lemma merge_left_count_plain:
  assumes "merge_left k left right = Inr m" "plain c"
    and "count_list (columns left) c \<le> 1" "distinct (columns right)"
  shows "count_list (columns m) c \<le> 1"
proof -
  define rc where "rc = filter (\<lambda>c. c \<noteq> k) (columns right)"
  define ov where "ov = filter (\<lambda>c. c \<in> set rc) (columns left)"
  note f = merge_left_frame [OF assms(1), folded rc_def ov_def]
  have x: "''_x'' = ''_x'' \<or> ''_x'' = ''_y''" and y: "''_y'' = ''_x'' \<or> ''_y'' = ''_y''"
    by simp_all
  have rc: "count_list rc c \<le> 1"
    using assms(4) by (intro count_le_1_distinct) (simp add: rc_def)
  show ?thesis
  proof (cases "c \<in> set ov")
    case True
    then show ?thesis
      by (simp add: f(1) count_suffixed [OF assms(2) x] count_suffixed [OF assms(2) y])
  next
    case False
    then have "c \<notin> set (columns left) \<or> c \<notin> set rc" by (auto simp: ov_def)
    then have "count_list (columns left) c = 0 \<or> count_list rc c = 0"
      by (auto simp: count_zero_notin)
    with False rc assms(3) show ?thesis
      by (auto simp: f(1) count_suffixed [OF assms(2) x] count_suffixed [OF assms(2) y])
  qed
qed

lemma cols_plain: "\<forall>c \<in> set cols. plain c"
  by (simp add: cols_def plain_def)

lemma merge_orders_count:
  assumes "merge_orders tabs orders = Inr merged"
    and "\<forall>name df. tabs name = Some df \<longrightarrow> wf_frame df"
    and "distinct (columns orders)" "plain c"
  shows "count_list (columns merged) c \<le> 1"
proof -
  from assms(1) obtain items payments reviews m1 m2 where
    t: "tabs ''olist_order_items_dataset'' = Some items"
       "tabs ''olist_order_payments_dataset'' = Some payments"
       "tabs ''olist_order_reviews_dataset'' = Some reviews"
    and m: "merge_left ''order_id'' orders items = Inr m1"
       "merge_left ''order_id'' m1 payments = Inr m2"
       "merge_left ''order_id'' m2 reviews = Inr merged"
    by (auto simp: merge_orders_def try_bind_def table_def split: option.splits sum.splits)
  from t assms(2) have d: "distinct (columns items)" "distinct (columns payments)"
    "distinct (columns reviews)"
    by (auto simp: wf_frame_def)
  have "count_list (columns orders) c \<le> 1" by (rule count_le_1_distinct [OF assms(3)])
  from merge_left_count_plain [OF m(1) assms(4) this d(1)]
  have "count_list (columns m1) c \<le> 1" .
  from merge_left_count_plain [OF m(2) assms(4) this d(2)]
  have "count_list (columns m2) c \<le> 1" .
  from merge_left_count_plain [OF m(3) assms(4) this d(3)]
  show ?thesis .
qed

lemma filter_eq_single:
  "c \<in> set ls \<Longrightarrow> count_list ls c \<le> 1 \<Longrightarrow> filter (\<lambda>c'. c' = c) ls = [c]"
proof (induction ls)
  case Nil
  then show ?case by simp
next
  case (Cons a ls)
  show ?case
  proof (cases "a = c")
    case True
    with Cons.prems have "count_list ls c = 0" by simp
    then have "c \<notin> set ls" by (simp add: count_list_0_iff)
    then have "filter (\<lambda>c'. c' = c) ls = []" by (induction ls) auto
    with True show ?thesis by simp
  next
    case False
    with Cons show ?thesis by simp
  qed
qed

lemma select_columns_frame:
  assumes "select_columns cs df = Inr df1"
  shows "set cs \<subseteq> set (columns df)"
    and "columns df1 = concat (map (\<lambda>c. filter (\<lambda>c'. c' = c) (columns df)) cs)"
    and "rows df1 = map (\<lambda>r. concat (map (\<lambda>c. cells_of c (columns df) r) cs)) (rows df)"
proof -
  from assms have e: "filter (\<lambda>c. c \<notin> set (columns df)) cs = []"
    by (auto simp: select_columns_def split: list.splits)
  then show "set cs \<subseteq> set (columns df)" by (auto simp: filter_empty_conv)
  from assms e show "columns df1 = concat (map (\<lambda>c. filter (\<lambda>c'. c' = c) (columns df)) cs)"
    "rows df1 = map (\<lambda>r. concat (map (\<lambda>c. cells_of c (columns df) r) cs)) (rows df)"
    by (auto simp: select_columns_def)
qed

lemma select_columns_labels:
  assumes "select_columns cs df = Inr df1" "\<forall>c \<in> set cs. count_list (columns df) c \<le> 1"
  shows "columns df1 = cs"
proof -
  note f = select_columns_frame [OF assms(1)]
  have "map (\<lambda>c. filter (\<lambda>c'. c' = c) (columns df)) cs = map (\<lambda>c. [c]) cs"
    using f(1) assms(2) by (intro map_cong refl filter_eq_single) auto
  moreover have "concat (map (\<lambda>c. [c]) cs) = cs" by (induction cs) simp_all
  ultimately show ?thesis by (simp only: f(2))
qed

lemma coerce_numeric_labels: "coerce_numeric pd c df = Inr df1 \<Longrightarrow> columns df1 = columns df"
  by (auto simp: coerce_numeric_def set_column_def split: sum.splits)

lemma join_row_nonempty: "join_row k lc rc rr l \<noteq> []"
  by (simp add: join_row_def Let_def)

lemma join_row_extends: "m \<in> set (join_row k lc rc rr l) \<Longrightarrow> \<exists>x. m = l @ x"
  by (auto simp: join_row_def Let_def split: if_splits)

lemma join_row_unmatched:
  "cells_of k lc l \<notin> cells_of k rc ` set rr \<Longrightarrow>
   join_row k lc rc rr l = [l @ replicate (length (filter (\<lambda>c. c \<noteq> k) rc)) Null]"
proof -
  assume "cells_of k lc l \<notin> cells_of k rc ` set rr"
  then have "\<forall>r \<in> set rr. cells_of k rc r \<noteq> cells_of k lc l"
    by (metis imageI)
  then have "filter (\<lambda>r. cells_of k rc r = cells_of k lc l) rr = []"
    by (simp add: filter_empty_conv)
  then show ?thesis by (simp add: join_row_def)
qed

lemma length_concat_nonempty:
  "(\<And>x. f x \<noteq> []) \<Longrightarrow> length xs \<le> length (concat (map f xs))"
proof (induction xs)
  case Nil
  show ?case by simp
next
  case (Cons x xs)
  have "1 \<le> length (f x)" using Cons.prems [of x] by (cases "f x") simp_all
  with Cons show ?case by simp
qed

lemma merge_left_length:
  assumes "merge_left k left right = Inr m"
  shows "length (rows left) \<le> length (rows m)"
  unfolding merge_left_frame(2) [OF assms]
  by (rule length_concat_nonempty) (rule join_row_nonempty)

lemma length_drop_column:
  "length r = length ls \<Longrightarrow> length (drop_column k ls r) = length (filter (\<lambda>c. c \<noteq> k) ls)"
proof (induction ls arbitrary: r)
  case Nil
  then show ?case by (simp add: drop_column_def)
next
  case (Cons a ls)
  then obtain v r' where r: "r = v # r'" by (cases r) simp_all
  with Cons.prems have "length r' = length ls" by simp
  from Cons.IH [OF this] r show ?case by (simp add: drop_column_def)
qed

lemma merge_left_rect:
  assumes "merge_left k left right = Inr m" "rect left" "rect right"
  shows "rect m"
proof -
  note f = merge_left_frame [OF assms(1)]
  let ?n = "length (filter (\<lambda>c. c \<noteq> k) (columns right))"
  have "length r = length (columns left) + ?n" if "r \<in> set (rows m)" for r
  proof -
    from that obtain l where l: "l \<in> set (rows left)"
      and r: "r \<in> set (join_row k (columns left) (columns right) (rows right) l)"
      by (auto simp: f(2))
    from l assms(2) have len: "length l = length (columns left)" by (simp add: rect_def)
    from r consider "r = l @ replicate ?n Null"
      | r0 where "r0 \<in> set (rows right)" "r = l @ drop_column k (columns right) r0"
      by (auto simp: join_row_def Let_def split: if_splits)
    then show ?thesis
    proof cases
      case 1
      with len show ?thesis by simp
    next
      case 2
      with assms(3) have "length r0 = length (columns right)" by (simp add: rect_def)
      with 2 len show ?thesis by (simp add: length_drop_column)
    qed
  qed
  then show ?thesis by (simp add: rect_def f(1))
qed

lemma merge_left_left_cells:
  assumes "merge_left k left right = Inr m" "plain c"
    and "c \<notin> set (filter (\<lambda>c. c \<noteq> k) (columns right))"
    and "length l = length (columns left)"
  shows "cells_of c (columns m) (l @ x) = cells_of c (columns left) l"
proof -
  define rc where "rc = filter (\<lambda>c. c \<noteq> k) (columns right)"
  define ov where "ov = filter (\<lambda>c. c \<in> set rc) (columns left)"
  note f = merge_left_frame [OF assms(1), folded rc_def ov_def]
  have x: "''_x'' = ''_x'' \<or> ''_x'' = ''_y''" and y: "''_y'' = ''_x'' \<or> ''_y'' = ''_y''"
    by simp_all
  from assms(3) have no: "c \<notin> set ov" "c \<notin> set rc" by (auto simp: ov_def rc_def)
  have "cells_of c (columns m) (l @ x)
      = cells_of c (map (suffixed ov ''_x'') (columns left)) l
        @ cells_of c (map (suffixed ov ''_y'') rc) x"
    using assms(4) by (simp add: f(1) cells_of_append)
  also have "\<dots> = cells_of c (columns left) l"
    using no by (simp add: cells_of_suffixed [OF assms(2) x] cells_of_suffixed [OF assms(2) y]
        cells_of_notin)
  finally show ?thesis .
qed

lemma merge_left_key_cells:
  assumes "merge_left k left right = Inr m" "plain k" "length l = length (columns left)"
  shows "cells_of k (columns m) (l @ x) = cells_of k (columns left) l"
  by (rule merge_left_left_cells [OF assms(1,2) _ assms(3)]) simp

lemma filter_concat_map:
  assumes "\<And>x. x \<in> set xs \<Longrightarrow> filter P (f x) = (if Q x then [g x] else [])"
  shows "filter P (concat (map f xs)) = map g (filter Q xs)"
  using assms by (induction xs) simp_all

lemma merge_left_unmatched:
  assumes "merge_left k left right = Inr m" "rect left" "plain k"
    and "kv \<notin> set (key_values k right)"
  shows "filter (\<lambda>r. cells_of k (columns m) r = kv) (rows m)
       = map (\<lambda>l. l @ replicate (length (filter (\<lambda>c. c \<noteq> k) (columns right))) Null)
           (filter (\<lambda>l. cells_of k (columns left) l = kv) (rows left))"
proof -
  note f = merge_left_frame [OF assms(1)]
  let ?J = "join_row k (columns left) (columns right) (rows right)"
  let ?N = "\<lambda>l. l @ replicate (length (filter (\<lambda>c. c \<noteq> k) (columns right))) Null"
  have "filter (\<lambda>r. cells_of k (columns m) r = kv) (?J l)
      = (if cells_of k (columns left) l = kv then [?N l] else [])"
    if "l \<in> set (rows left)" for l
  proof -
    from that assms(2) have len: "length l = length (columns left)" by (simp add: rect_def)
    note key = merge_left_key_cells [OF assms(1,3) len]
    show ?thesis
    proof (cases "cells_of k (columns left) l = kv")
      case True
      with assms(4) have "cells_of k (columns left) l \<notin> cells_of k (columns right) ` set (rows right)"
        by (simp add: key_values_def)
      from join_row_unmatched [OF this] True key show ?thesis by simp
    next
      case False
      have "\<not> cells_of k (columns m) r = kv" if "r \<in> set (?J l)" for r
        using join_row_extends [OF that] False key by auto
      then have "filter (\<lambda>r. cells_of k (columns m) r = kv) (?J l) = []"
        by (auto simp: filter_empty_conv)
      with False show ?thesis by simp
    qed
  qed
  then show ?thesis unfolding f(2) by (rule filter_concat_map)
qed

lemma set_cells_of_subset: "set (cells_of c ls r) \<subseteq> set r"
  by (auto simp: cells_of_def dest: set_zip_rightD)

lemma merge_left_null_cells:
  assumes "merge_left k left right = Inr m" "plain c" "length l = length (columns left)"
    and "set (cells_of c (columns left) l) \<subseteq> {Null}"
  shows "set (cells_of c (columns m) (l @ replicate n Null)) \<subseteq> {Null}"
proof -
  define rc where "rc = filter (\<lambda>c. c \<noteq> k) (columns right)"
  define ov where "ov = filter (\<lambda>c. c \<in> set rc) (columns left)"
  note f = merge_left_frame [OF assms(1), folded rc_def ov_def]
  have x: "''_x'' = ''_x'' \<or> ''_x'' = ''_y''" by simp
  have "cells_of c (columns m) (l @ replicate n Null)
      = cells_of c (map (suffixed ov ''_x'') (columns left)) l
        @ cells_of c (map (suffixed ov ''_y'') rc) (replicate n Null)"
    using assms(3) by (simp add: f(1) cells_of_append)
  moreover have "set (cells_of c (map (suffixed ov ''_x'') (columns left)) l) \<subseteq> {Null}"
    using assms(4) by (simp add: cells_of_suffixed [OF assms(2) x])
  moreover have "set (cells_of c (map (suffixed ov ''_y'') rc) (replicate n Null)) \<subseteq> {Null}"
    using set_cells_of_subset [of c "map (suffixed ov ''_y'') rc" "replicate n Null"] by auto
  ultimately show ?thesis by auto
qed

lemma cells_of_concat_singletons:
  "(\<And>c'. c' \<in> set cs \<Longrightarrow> length (g c') = 1) \<Longrightarrow>
   cells_of c cs (concat (map g cs)) = concat (map g (filter (\<lambda>c'. c' = c) cs))"
proof (induction cs)
  case Nil
  show ?case by simp
next
  case (Cons a cs)
  from Cons.prems [of a] obtain v where v: "g a = [v]" by (cases "g a") simp_all
  have "cells_of c cs (concat (map g cs)) = concat (map g (filter (\<lambda>c'. c' = c) cs))"
    by (rule Cons.IH) (simp add: Cons.prems)
  with v show ?case by auto
qed

lemma length_concat_singletons:
  "(\<And>c'. c' \<in> set cs \<Longrightarrow> length (g c') = 1) \<Longrightarrow> length (concat (map g cs)) = length cs"
  by (induction cs) simp_all

lemma map_column_none:
  "cells_of c ls r = [] \<Longrightarrow> map_column c f ls r = map_column c g ls r"
proof (induction ls arbitrary: r)
  case Nil
  show ?case by simp
next
  case (Cons a ls)
  then show ?case by (cases r) (auto split: if_splits)
qed

lemma map_column_const:
  "cells_of c ls r = [x] \<Longrightarrow> map_column c (\<lambda>_. f x) ls r = map_column c f ls r"
proof (induction ls arbitrary: r)
  case Nil
  then show ?case by simp
next
  case (Cons a ls)
  show ?case
  proof (cases r)
    case Nil
    then show ?thesis by simp
  next
    case (Cons v r')
    show ?thesis
    proof (cases "a = c")
      case True
      with Cons.prems Cons have "v = x" "cells_of c ls r' = []" by simp_all
      with True Cons map_column_none [of c ls r' "\<lambda>_. f x" f] show ?thesis by simp
    next
      case False
      with Cons.prems Cons have "cells_of c ls r' = [x]" by simp
      from Cons.IH [OF this] False Cons show ?thesis by simp
    qed
  qed
qed

lemma coerce_numeric_rows:
  assumes "coerce_numeric pd c df = Inr df1" "rect df"
  shows "rows df1 = map (map_column c (to_numeric_cell pd) (columns df)) (rows df)"
proof -
  from assms(1) have one: "count_list (columns df) c = 1"
    and df1: "df1 = set_column c (map (to_numeric_cell pd) (concat (key_values c df))) df"
    by (auto simp: coerce_numeric_def get_column_def split: if_splits)
  have "map (\<lambda>p. map_column c (\<lambda>_. snd p) ls (fst p))
          (zip rs (map f (concat (map (cells_of c ls) rs))))
        = map (map_column c f ls) rs"
    if "\<forall>r \<in> set rs. length r = length ls" "count_list ls c = 1"
    for rs :: "'a cell list list" and ls f
    using that(1)
  proof (induction rs)
    case Nil
    show ?case by simp
  next
    case (Cons r rs)
    then have "length (cells_of c ls r) = 1" using that(2) by (simp add: length_cells_of)
    then obtain x where x: "cells_of c ls r = [x]" by (cases "cells_of c ls r") simp_all
    with Cons map_column_const [OF x, of f] show ?case by simp
  qed
  from this [of "rows df" "columns df"] assms(2) one show ?thesis
    by (simp add: df1 set_column_def key_values_def rect_def)
qed

lemma cells_of_map_column:
  "cells_of c ls (map_column c' f ls r)
     = (if c = c' then map f (cells_of c ls r) else cells_of c ls r)"
  by (simp add: cells_of_map_column_same cells_of_map_column_other)

lemma plain_order_id: "plain ''order_id''"
  by (simp add: plain_def)

lemma merge_orders_steps:
  assumes "merge_orders tabs orders = Inr merged"
  obtains items payments reviews m1 m2 where
    "tabs ''olist_order_items_dataset'' = Some items"
    "tabs ''olist_order_payments_dataset'' = Some payments"
    "tabs ''olist_order_reviews_dataset'' = Some reviews"
    "merge_left ''order_id'' orders items = Inr m1"
    "merge_left ''order_id'' m1 payments = Inr m2"
    "merge_left ''order_id'' m2 reviews = Inr merged"
  using assms
  by (auto simp: merge_orders_def try_bind_def table_def split: option.splits sum.splits)

lemma merge_orders_rect:
  assumes "merge_orders tabs orders = Inr merged"
    and "\<forall>name df. tabs name = Some df \<longrightarrow> wf_frame df" "rect orders"
  shows "rect merged" "length (rows orders) \<le> length (rows merged)"
proof -
  from assms(1) obtain items payments reviews m1 m2 where
    t: "tabs ''olist_order_items_dataset'' = Some items"
       "tabs ''olist_order_payments_dataset'' = Some payments"
       "tabs ''olist_order_reviews_dataset'' = Some reviews"
    and m: "merge_left ''order_id'' orders items = Inr m1"
       "merge_left ''order_id'' m1 payments = Inr m2"
       "merge_left ''order_id'' m2 reviews = Inr merged"
    by (rule merge_orders_steps)
  from t assms(2) have r: "rect items" "rect payments" "rect reviews"
    by (auto intro: wf_frame_rect)
  have r1: "rect m1" by (rule merge_left_rect [OF m(1) assms(3) r(1)])
  have r2: "rect m2" by (rule merge_left_rect [OF m(2) r1 r(2)])
  show "rect merged" by (rule merge_left_rect [OF m(3) r2 r(3)])
  from merge_left_length [OF m(1)] merge_left_length [OF m(2)] merge_left_length [OF m(3)]
  show "length (rows orders) \<le> length (rows merged)" by simp
qed

lemma merge_orders_unmatched:
  assumes "merge_orders tabs orders = Inr merged"
    and "\<forall>name df. tabs name = Some df \<longrightarrow> wf_frame df" "rect orders"
    and "tabs ''olist_order_items_dataset'' = Some items"
      "tabs ''olist_order_payments_dataset'' = Some payments"
      "tabs ''olist_order_reviews_dataset'' = Some reviews"
    and "kv \<notin> set (key_values ''order_id'' items)"
      "kv \<notin> set (key_values ''order_id'' payments)"
      "kv \<notin> set (key_values ''order_id'' reviews)"
  shows "\<exists>N. filter (\<lambda>r. cells_of ''order_id'' (columns merged) r = kv) (rows merged)
             = map N (filter (\<lambda>l. cells_of ''order_id'' (columns orders) l = kv) (rows orders))
           \<and> (\<forall>l \<in> set (rows orders). \<forall>c. plain c \<and> c \<notin> set (columns orders) \<and>
                 cells_of ''order_id'' (columns orders) l = kv
                 \<longrightarrow> set (cells_of c (columns merged) (N l)) \<subseteq> {Null})"
proof -
  let ?k = "''order_id''"
  from assms(1) obtain items' payments' reviews' m1 m2 where
    t: "tabs ''olist_order_items_dataset'' = Some items'"
       "tabs ''olist_order_payments_dataset'' = Some payments'"
       "tabs ''olist_order_reviews_dataset'' = Some reviews'"
    and m': "merge_left ?k orders items' = Inr m1"
       "merge_left ?k m1 payments' = Inr m2"
       "merge_left ?k m2 reviews' = Inr merged"
    by (rule merge_orders_steps)
  from t assms(4-6) m' have m: "merge_left ?k orders items = Inr m1"
       "merge_left ?k m1 payments = Inr m2"
       "merge_left ?k m2 reviews = Inr merged"
    by simp_all
  from assms(2,4-6) have r: "rect items" "rect payments" "rect reviews"
    by (auto intro: wf_frame_rect)
  have r1: "rect m1" by (rule merge_left_rect [OF m(1) assms(3) r(1)])
  have r2: "rect m2" by (rule merge_left_rect [OF m(2) r1 r(2)])
  define n1 where "n1 = length (filter (\<lambda>c. c \<noteq> ?k) (columns items))"
  define n2 where "n2 = length (filter (\<lambda>c. c \<noteq> ?k) (columns payments))"
  define n3 where "n3 = length (filter (\<lambda>c. c \<noteq> ?k) (columns reviews))"
  define N1 :: "'a cell list \<Rightarrow> 'a cell list" where "N1 = (\<lambda>l. l @ replicate n1 Null)"
  define N2 :: "'a cell list \<Rightarrow> 'a cell list" where "N2 = (\<lambda>l. l @ replicate n2 Null)"
  define N3 :: "'a cell list \<Rightarrow> 'a cell list" where "N3 = (\<lambda>l. l @ replicate n3 Null)"
  let ?F0 = "filter (\<lambda>l. cells_of ?k (columns orders) l = kv) (rows orders)"
  let ?F1 = "filter (\<lambda>l. cells_of ?k (columns m1) l = kv) (rows m1)"
  let ?F2 = "filter (\<lambda>l. cells_of ?k (columns m2) l = kv) (rows m2)"
  let ?F3 = "filter (\<lambda>l. cells_of ?k (columns merged) l = kv) (rows merged)"
  have e1: "?F1 = map N1 ?F0"
    using merge_left_unmatched [OF m(1) assms(3) plain_order_id assms(7)]
    by (simp add: N1_def n1_def)
  have e2: "?F2 = map N2 ?F1"
    using merge_left_unmatched [OF m(2) r1 plain_order_id assms(8)]
    by (simp add: N2_def n2_def)
  have e3: "?F3 = map N3 ?F2"
    using merge_left_unmatched [OF m(3) r2 plain_order_id assms(9)]
    by (simp add: N3_def n3_def)
  have eq: "?F3 = map (\<lambda>l. N3 (N2 (N1 l))) ?F0"
    by (simp add: e3 e2 e1 comp_def)
  have nulls: "set (cells_of c (columns merged) (N3 (N2 (N1 l)))) \<subseteq> {Null}"
    if l: "l \<in> set (rows orders)" and c: "plain c" "c \<notin> set (columns orders)"
      and k: "cells_of ?k (columns orders) l = kv" for l c
  proof -
    from l k have in0: "l \<in> set ?F0" by simp
    then have "N1 l \<in> set ?F1" by (simp add: e1)
    then have in1: "N1 l \<in> set (rows m1)" by simp
    from in0 have "N2 (N1 l) \<in> set ?F2" by (simp add: e2 e1)
    then have in2: "N2 (N1 l) \<in> set (rows m2)" by simp
    from l assms(3) have len0: "length l = length (columns orders)" by (simp add: rect_def)
    from in1 r1 have len1: "length (N1 l) = length (columns m1)" by (simp add: rect_def)
    from in2 r2 have len2: "length (N2 (N1 l)) = length (columns m2)" by (simp add: rect_def)
    have "set (cells_of c (columns orders) l) \<subseteq> {Null}"
      using c(2) by (simp add: cells_of_notin)
    from merge_left_null_cells [OF m(1) c(1) len0 this, of n1]
    have "set (cells_of c (columns m1) (N1 l)) \<subseteq> {Null}" by (simp add: N1_def)
    from merge_left_null_cells [OF m(2) c(1) len1 this, of n2]
    have "set (cells_of c (columns m2) (N2 (N1 l))) \<subseteq> {Null}" by (simp add: N2_def)
    from merge_left_null_cells [OF m(3) c(1) len2 this, of n3]
    show ?thesis by (simp add: N3_def)
  qed
  from eq nulls show ?thesis by blast
qed

lemma cols_distinct: "distinct cols"
  by (simp add: cols_def)

lemma to_numeric_cell_Null: "to_numeric_cell pd Null = Null"
  by (simp add: to_numeric_cell_def)

lemma fact_orders_rows:
  fixes pd :: "'n pandas"
  assumes "transform_fact_orders pd tabs = (Inr out, tabs1)"
    and "\<forall>name df. tabs name = Some df \<longrightarrow> wf_frame df"
    and "tabs ''olist_orders_dataset'' = Some orders0"
  shows "\<exists>orders merged G.
      parse_purchase_timestamp pd orders0 = Inr orders
    \<and> merge_orders tabs orders = Inr merged
    \<and> rows out = map G (rows merged)
    \<and> columns out = cols
    \<and> (\<forall>r c. r \<in> set (rows merged) \<and> c \<in> set cols \<longrightarrow>
          length (cells_of c (columns merged) r) = 1)
    \<and> (\<forall>r c. r \<in> set (rows merged) \<and> c \<in> set cols \<longrightarrow>
          cells_of c cols (G r) =
            (if c = ''payment_value'' \<or> c = ''review_score''
             then map (to_numeric_cell pd) (cells_of c (columns merged) r)
             else cells_of c (columns merged) r))"
proof -
  from assms(1,3) obtain orders merged m1 m2 where
    p: "parse_purchase_timestamp pd orders0 = Inr orders"
    and m: "merge_orders tabs orders = Inr merged"
    and s: "select_columns cols merged = Inr m1"
    and c: "coerce_numeric pd ''payment_value'' m1 = Inr m2"
       "coerce_numeric pd ''review_score'' m2 = Inr out"
    by (auto simp: transform_fact_orders_def try_bind_def table_def
        split: option.splits sum.splits)
  from assms(2,3) have wf: "wf_frame orders0" by blast
  note pf = parse_purchase_timestamp_frame [OF wf_frame_rect [OF wf] p]
  from wf pf(1) have d: "distinct (columns orders)" by (simp add: wf_frame_def)
  note mr = merge_orders_rect [OF m assms(2) pf(2)]
  have le: "\<forall>c \<in> set cols. count_list (columns merged) c \<le> 1"
    using merge_orders_count [OF m assms(2) d] cols_plain by blast
  note sf = select_columns_frame [OF s]
  have one: "count_list (columns merged) c = 1" if "c \<in> set cols" for c
  proof -
    from that sf(1) have "c \<in> set (columns merged)" by blast
    then have "count_list (columns merged) c \<noteq> 0" by (simp add: count_list_0_iff)
    with le that show ?thesis by force
  qed
  have len: "length (cells_of c (columns merged) r) = 1"
    if "r \<in> set (rows merged)" "c \<in> set cols" for r c
    using that mr(1) one by (simp add: length_cells_of rect_def)
  define S :: "'n cell list \<Rightarrow> 'n cell list"
    where "S = (\<lambda>r. concat (map (\<lambda>c. cells_of c (columns merged) r) cols))"
  have l1: "columns m1 = cols" by (rule select_columns_labels [OF s le])
  have r1: "rows m1 = map S (rows merged)" by (simp add: sf(3) S_def)
  have lenS: "length (S r) = length cols" if "r \<in> set (rows merged)" for r
    unfolding S_def using that len by (intro length_concat_singletons) simp
  have rect1: "rect m1" using lenS by (auto simp: rect_def l1 r1)
  define g1 where "g1 = map_column ''payment_value'' (to_numeric_cell pd) cols"
  define g2 where "g2 = map_column ''review_score'' (to_numeric_cell pd) cols"
  have r2: "rows m2 = map g1 (rows m1)"
    using coerce_numeric_rows [OF c(1) rect1] by (simp add: l1 g1_def)
  have l2: "columns m2 = cols" using coerce_numeric_labels [OF c(1)] l1 by simp
  have rect2: "rect m2"
    using rect1 by (auto simp: rect_def l1 l2 r2 g1_def length_map_column)
  have r3: "rows out = map g2 (rows m2)"
    using coerce_numeric_rows [OF c(2) rect2] by (simp add: l2 g2_def)
  have l3: "columns out = cols" using coerce_numeric_labels [OF c(2)] l2 by simp
  have rows: "rows out = map (\<lambda>r. g2 (g1 (S r))) (rows merged)"
    by (simp add: r3 r2 r1 comp_def)
  have sel: "cells_of c cols (S r) = cells_of c (columns merged) r"
    if "r \<in> set (rows merged)" "c \<in> set cols" for r c
  proof -
    have "filter (\<lambda>c'. c' = c) cols = [c]"
      using that(2) cols_distinct by (intro filter_eq_single count_le_1_distinct)
    moreover have "cells_of c cols (S r)
        = concat (map (\<lambda>c. cells_of c (columns merged) r) (filter (\<lambda>c'. c' = c) cols))"
      unfolding S_def using that(1) len by (intro cells_of_concat_singletons) simp
    ultimately show ?thesis by simp
  qed
  have cells: "cells_of c cols (g2 (g1 (S r))) =
         (if c = ''payment_value'' \<or> c = ''review_score''
          then map (to_numeric_cell pd) (cells_of c (columns merged) r)
          else cells_of c (columns merged) r)"
    if "r \<in> set (rows merged)" "c \<in> set cols" for r c
    using sel [OF that] by (auto simp: g1_def g2_def cells_of_map_column)
  from p m rows l3 len cells show ?thesis by blast
qed

lemma keep_first_contains:
  "find (\<lambda>x. key x = kv) xs = Some r \<Longrightarrow> kv \<notin> set seen \<Longrightarrow> r \<in> set (keep_first key seen xs)"
proof (induction xs arbitrary: seen)
  case Nil
  then show ?case by simp
next
  case (Cons x xs)
  show ?case
  proof (cases "key x = kv")
    case True
    with Cons.prems show ?thesis by simp
  next
    case False
    with Cons.prems have f: "find (\<lambda>x. key x = kv) xs = Some r" by simp
    from Cons.prems(2) False have "kv \<notin> set (key x # seen)" by auto
    from Cons.IH [OF f this] Cons.IH [OF f Cons.prems(2)] show ?thesis by simp
  qed
qed

lemma find_append_none:
  "\<forall>x \<in> set xs. \<not> P x \<Longrightarrow> find P (xs @ ys) = find P ys"
  by (induction xs) simp_all

lemma find_concat_first:
  assumes "find (\<lambda>q. lk q = kv) ls = Some p" "J p = [r]" "key r = kv"
    and "\<forall>q \<in> set ls. \<forall>m \<in> set (J q). key m = lk q"
  shows "find (\<lambda>m. key m = kv) (concat (map J ls)) = Some r"
  using assms(1,4)
proof (induction ls)
  case Nil
  then show ?case by simp
next
  case (Cons q ls)
  show ?case
  proof (cases "lk q = kv")
    case True
    with Cons.prems(1) have "q = p" by simp
    with assms(2,3) show ?thesis by simp
  next
    case False
    with Cons.prems have "\<forall>m \<in> set (J q). \<not> key m = kv" by auto
    then have "find (\<lambda>m. key m = kv) (J q @ concat (map J ls))
        = find (\<lambda>m. key m = kv) (concat (map J ls))"
      by (rule find_append_none)
    moreover from False Cons.prems have "find (\<lambda>q. lk q = kv) ls = Some p"
      "\<forall>q \<in> set ls. \<forall>m \<in> set (J q). key m = lk q" by simp_all
    ultimately show ?thesis using Cons.IH by simp
  qed
qed

lemma length_filter_other:
  "count_list ls k = 1 \<Longrightarrow> length (filter (\<lambda>c. c \<noteq> k) ls) = length ls - 1"
proof -
  have "length (filter (\<lambda>c. c \<noteq> k) ls) + count_list ls k = length ls"
    by (induction ls) simp_all
  then show "count_list ls k = 1 \<Longrightarrow> ?thesis" by simp
qed

lemma plain_product_id: "plain ''product_id''"
  by (simp add: plain_def)

subsection \<open>Parsed timestamps and dates\<close>









section \<open>Running the example\<close>

text \<open>
  The transformers are run on the example data one step at a time, each step evaluated
  by the simplifier on its own.
\<close>

lemma merge_left_eval:
  assumes "count_list lcols k = 1" "count_list rcols k = 1"
    and "filter (\<lambda>c. c \<noteq> k) rcols = rc"
    and "filter (\<lambda>c. c \<in> set rc) lcols = ov"
    and "map (suffixed ov ''_x'') lcols = ll"
    and "map (suffixed ov ''_y'') rc = rl"
    and "suffix_dups lcols ll = []" "suffix_dups rc rl = []"
    and "ll @ rl = cs"
    and "map (join_row k lcols rcols rrows) lrows = js"
    and "concat js = rs"
  shows "merge_left k \<lparr>columns = lcols, rows = lrows\<rparr> \<lparr>columns = rcols, rows = rrows\<rparr>
           = Inr \<lparr>columns = cs, rows = rs\<rparr>"
proof -
  have "k \<in> set lcols" "k \<in> set rcols"
    using assms(1,2) count_list_0_iff [of lcols k] count_list_0_iff [of rcols k]
    by (cases "k \<in> set lcols"; cases "k \<in> set rcols"; simp)+
  with assms show ?thesis by (simp add: merge_left_def)
qed

lemma select_columns_eval:
  assumes "filter (\<lambda>c. c \<notin> set labels) cs = []"
    and "concat (map (\<lambda>c. filter (\<lambda>c'. c' = c) labels) cs) = cs'"
    and "map (\<lambda>r. concat (map (\<lambda>c. cells_of c labels r) cs)) rs = rs'"
  shows "select_columns cs \<lparr>columns = labels, rows = rs\<rparr> = Inr \<lparr>columns = cs', rows = rs'\<rparr>"
  using assms by (simp add: select_columns_def)

lemma coerce_numeric_eval:
  assumes "count_list labels c = 1"
    and "map (to_numeric_cell pd) (concat (map (cells_of c labels) rs)) = vs"
    and "map (\<lambda>p. map_column c (\<lambda>_. snd p) labels (fst p)) (zip rs vs) = rs'"
  shows "coerce_numeric pd c \<lparr>columns = labels, rows = rs\<rparr> = Inr \<lparr>columns = labels, rows = rs'\<rparr>"
proof -
  have "c \<in> set labels"
    using assms(1) count_list_0_iff [of labels c] by (cases "c \<in> set labels") simp_all
  with assms show ?thesis
    by (simp add: coerce_numeric_def get_column_def key_values_def set_column_def)
qed

lemmas frame_ops = key_values_def get_column_def drop_duplicates_def set_column_def
lemmas merge_ops = suffixed_def suffix_dups_def join_row_def drop_column_def

lemma run_customers: "transform_dim_customers ex_pd ex_customers = Inr ex_dim_customers"
  by (simp add: transform_dim_customers_def frame_ops ex_customers_def ex_dim_customers_def
      ex_pd_def)

lemma run_sellers: "transform_dim_sellers ex_sellers = Inr ex_dim_sellers"
  by (simp add: transform_dim_sellers_def frame_ops ex_sellers_def ex_dim_sellers_def)

lemma run_merge_products:
  "merge_left ''product_category_name'' ex_products ex_translation = Inr ex_merged_products"
  unfolding ex_products_def ex_translation_def ex_merged_products_def
  apply (rule merge_left_eval)
            apply simp
           apply simp
          apply simp
         apply simp
        apply (simp add: merge_ops)
       apply (simp add: merge_ops)
      apply (simp add: merge_ops)
     apply (simp add: merge_ops)
    apply simp
   apply (simp add: merge_ops)
  apply simp
  done

lemma run_products: "transform_dim_products ex_products ex_translation = Inr ex_dim_products"
  by (simp add: transform_dim_products_def run_merge_products)
     (simp add: frame_ops ex_merged_products_def ex_dim_products_def)

lemma run_parse: "parse_purchase_timestamp ex_pd ex_orders = Inr ex_orders_parsed"
  by (simp add: parse_purchase_timestamp_def frame_ops to_datetime_cell_def ex_orders_def
      ex_pd_def ex_orders_parsed_def ex_ts1_def ex_ts2_def ex_ts3_def)

lemma wf_ex_orders: "wf_frame ex_orders"
  by (simp add: wf_frame_def ex_orders_def)

lemma run_parse_again: "parse_purchase_timestamp ex_pd ex_orders_parsed = Inr ex_orders_parsed"
  using wf_frame_rect [OF wf_ex_orders] run_parse by (rule parse_purchase_timestamp_idem)

lemma run_date: "transform_dim_date ex_pd ex_orders = Inr (ex_orders_parsed, ex_dim_date)"
  by (simp add: transform_dim_date_def run_parse)
     (simp add: frame_ops ex_orders_parsed_def ex_dim_date_def midnight_def date_row_def
        dt_field_def weekday_def days_from_civil_def ex_pd_def ex_ts1_def ex_ts2_def ex_ts3_def)






lemma run_merge1: "merge_left ''order_id'' ex_orders_parsed ex_items = Inr ex_merged1"
  unfolding ex_orders_parsed_def ex_items_def ex_merged1_def
  apply (rule merge_left_eval)
            apply simp
           apply simp
          apply simp
         apply simp
        apply (simp add: merge_ops)
       apply (simp add: merge_ops)
      apply (simp add: merge_ops)
     apply (simp add: merge_ops)
    apply simp
   apply (simp add: merge_ops)
  apply simp
  done

lemma run_merge2: "merge_left ''order_id'' ex_merged1 ex_payments = Inr ex_merged2"
  unfolding ex_merged1_def ex_payments_def ex_merged2_def
  apply (rule merge_left_eval)
            apply simp
           apply simp
          apply simp
         apply simp
        apply (simp add: merge_ops)
       apply (simp add: merge_ops)
      apply (simp add: merge_ops)
     apply (simp add: merge_ops)
    apply simp
   apply (simp add: merge_ops)
  apply simp
  done

lemma run_merge3: "merge_left ''order_id'' ex_merged2 ex_reviews = Inr ex_merged3"
  unfolding ex_merged2_def ex_reviews_def ex_merged3_def
  apply (rule merge_left_eval)
            apply simp
           apply simp
          apply simp
         apply simp
        apply (simp add: merge_ops)
       apply (simp add: merge_ops)
      apply (simp add: merge_ops)
     apply (simp add: merge_ops)
    apply simp
   apply (simp add: merge_ops)
  apply simp
  done

lemma run_select: "select_columns cols ex_merged3 = Inr ex_selected"
  unfolding ex_merged3_def ex_selected_def cols_def
  apply (rule select_columns_eval)
    apply simp
   apply simp
  apply simp
  done

lemma run_coerce1: "coerce_numeric ex_pd ''payment_value'' ex_selected = Inr ex_coerced"
  unfolding ex_selected_def ex_coerced_def cols_def
  apply (rule coerce_numeric_eval)
    apply simp
   apply (simp add: to_numeric_cell_def ex_pd_def)
  apply simp
  done

lemma run_coerce2: "coerce_numeric ex_pd ''review_score'' ex_coerced = Inr ex_fact_orders"
  unfolding ex_coerced_def ex_fact_orders_def cols_def
  apply (rule coerce_numeric_eval)
    apply simp
   apply (simp add: to_numeric_cell_def ex_pd_def)
  apply simp
  done

lemma ex_tables:
  "ex_dfs ''olist_customers_dataset'' = Some ex_customers"
  "ex_dfs ''olist_sellers_dataset'' = Some ex_sellers"
  "ex_dfs ''olist_products_dataset'' = Some ex_products"
  "ex_dfs ''product_category_name_translation'' = Some ex_translation"
  "ex_dfs ''olist_orders_dataset'' = Some ex_orders"
  "ex_dfs ''olist_order_items_dataset'' = Some ex_items"
  "ex_dfs ''olist_order_payments_dataset'' = Some ex_payments"
  "ex_dfs ''olist_order_reviews_dataset'' = Some ex_reviews"
  by (simp_all add: ex_dfs_def)

lemma run_merge_orders:
  "tabs ''olist_order_items_dataset'' = Some ex_items \<Longrightarrow>
   tabs ''olist_order_payments_dataset'' = Some ex_payments \<Longrightarrow>
   tabs ''olist_order_reviews_dataset'' = Some ex_reviews \<Longrightarrow>
   merge_orders tabs ex_orders_parsed = Inr ex_merged3"
  by (simp add: merge_orders_def try_bind_def table_def run_merge1 run_merge2 run_merge3)

lemma run_fact:
  "transform_fact_orders ex_pd ex_dfs
     = (Inr ex_fact_orders, ex_dfs(''olist_orders_dataset'' \<mapsto> ex_orders_parsed))"
  by (simp add: transform_fact_orders_def try_bind_def table_def ex_tables run_parse
      run_merge_orders run_select run_coerce1 run_coerce2)

lemma run_fact_again:
  "transform_fact_orders ex_pd (ex_dfs(''olist_orders_dataset'' \<mapsto> ex_orders_parsed))
     = (Inr ex_fact_orders, ex_dfs(''olist_orders_dataset'' \<mapsto> ex_orders_parsed))"
  by (simp add: transform_fact_orders_def try_bind_def table_def ex_tables run_parse_again
      run_merge_orders run_select run_coerce1 run_coerce2)

lemma run_transforms:
  "transforms ex_pd ex_dfs = (Inr ex_star, ex_dfs(''olist_orders_dataset'' \<mapsto> ex_orders_parsed))"
  by (simp add: transforms_def try_bind_def table_def ex_tables run_customers run_sellers
      run_products run_date run_fact_again ex_star_def)

lemma wf_ex_frames:
  "wf_frame ex_customers" "wf_frame ex_sellers" "wf_frame ex_products" "wf_frame ex_translation"
  "wf_frame ex_items" "wf_frame ex_payments" "wf_frame ex_reviews"
  by (simp_all add: wf_frame_def ex_customers_def ex_sellers_def ex_products_def
      ex_translation_def ex_items_def ex_payments_def ex_reviews_def)

lemma wf_ex_dfs: "\<forall>name df. ex_dfs name = Some df \<longrightarrow> wf_frame df"
  using wf_ex_frames wf_ex_orders by (auto simp: ex_dfs_def split: if_splits)

section \<open>Claims\<close>

text \<open>
  C1. Whenever the customers transformer returns a frame, no two of its rows share a
  \<^verbatim>\<open>customer_id\<close>, and it has as many rows as the input has distinct values of
  \<^verbatim>\<open>customer_id\<close>. (It returns a frame exactly when the input has the two columns it
  names; missing values count as one value, as in pandas.)
\<close>

theorem dim_customers_unique_key:
  assumes "transform_dim_customers pd df = Inr out"
  shows "distinct (key_values ''customer_id'' out)
       \<and> length (rows out) = card (set (key_values ''customer_id'' df))"
proof -
  let ?key = "cells_of ''customer_id'' (columns df)"
  let ?kept = "keep_first ?key [] (rows df)"
  let ?f = "map_column ''customer_unique_id'' (\<lambda>v. Str (py_str pd v)) (columns df)"
  from assms have out: "out = df\<lparr>rows := map ?f ?kept\<rparr>"
    by (auto simp: transform_dim_customers_def drop_duplicates_def split: if_splits)
  have same: "?key (?f r) = ?key r" for r
    by (rule cells_of_map_column_other) simp
  have "key_values ''customer_id'' out = map ?key ?kept"
    by (simp add: out key_values_def same)
  moreover have "length (rows out) = length ?kept"
    by (simp add: out)
  ultimately show ?thesis
    using keep_first_distinct [of ?key "[]" "rows df"] keep_first_length [of ?key "rows df"]
    by (simp add: key_values_def)
qed

theorem dim_customers_unique_key_witness:
  "transform_dim_customers ex_pd ex_customers = Inr ex_dim_customers
   \<and> distinct (key_values ''customer_id'' ex_dim_customers)
   \<and> length (rows ex_dim_customers) = card (set (key_values ''customer_id'' ex_customers))"
  using run_customers dim_customers_unique_key [OF run_customers] by blast

text \<open>
  C2, as the specification states it, fails in its second half when a product is read
  twice with different categories: the duplicates are dropped after the merge and the
  first row of the product wins. Below, the second row of product \<^verbatim>\<open>p1\<close> has a category
  without translation, and the only row of \<^verbatim>\<open>p1\<close> in the result carries the translation
  of the category of its first row.
\<close>

theorem product_without_translation_is_dropped:
  "transform_dim_products ex_products ex_translation = Inr ex_dim_products
   \<and> [Str ''p1'', Str ''pcs''] \<in> set (rows ex_products)
   \<and> [Str ''pcs''] \<notin> set (key_values ''product_category_name'' ex_translation)
   \<and> filter (\<lambda>r. cells_of ''product_id'' (columns ex_dim_products) r = [Str ''p1''])
        (rows ex_dim_products)
       = [[Str ''p1'', Str ''beleza'', Str ''beauty'']]"
  using run_products
  by (simp add: key_values_def ex_products_def ex_translation_def ex_dim_products_def)

text \<open>
  C2, amended. Whenever the products transformer returns a frame for a products table
  as a store returns it, no two rows of that frame share a \<^verbatim>\<open>product_id\<close> and its
  \<^verbatim>\<open>product_id\<close> values are those of the products table: one row for every product.
  Every row of the products table that is the first row of its product and whose
  category has no row in the translation table is in that frame, followed by a missing
  value for every column of the translation.
\<close>

theorem dim_products_one_row_per_product:
  assumes "transform_dim_products products_df translation_df = Inr out"
    and "wf_frame products_df" "''product_id'' \<in> set (columns products_df)"
  shows "distinct (key_values ''product_id'' out)
       \<and> set (key_values ''product_id'' out) = set (key_values ''product_id'' products_df)
       \<and> (\<forall>p \<in> set (rows products_df).
             find (\<lambda>q. cells_of ''product_id'' (columns products_df) q
                         = cells_of ''product_id'' (columns products_df) p)
               (rows products_df) = Some p
           \<and> cells_of ''product_category_name'' (columns products_df) p
               \<notin> set (key_values ''product_category_name'' translation_df)
           \<longrightarrow> p @ replicate (length (columns translation_df) - 1) Null \<in> set (rows out))"
proof -
  let ?k = "''product_category_name''" and ?pid = "''product_id''"
  let ?lc = "columns products_df" and ?rc = "columns translation_df"
  from assms(1) obtain m where m: "merge_left ?k products_df translation_df = Inr m"
    and in_m: "?pid \<in> set (columns m)"
    and out: "out = m\<lparr>rows := keep_first (cells_of ?pid (columns m)) [] (rows m)\<rparr>"
    by (auto simp: transform_dim_products_def drop_duplicates_def split: sum.splits if_splits)
  let ?key = "cells_of ?pid (columns m)" and ?lk = "cells_of ?pid ?lc"
  let ?J = "join_row ?k ?lc ?rc (rows translation_df)"
  define rc where "rc = filter (\<lambda>c. c \<noteq> ?k) ?rc"
  define ov where "ov = filter (\<lambda>c. c \<in> set rc) ?lc"
  note f = merge_left_frame [OF m, folded rc_def ov_def]
  have x: "''_x'' = ''_x'' \<or> ''_x'' = ''_y''" and y: "''_y'' = ''_x'' \<or> ''_y'' = ''_y''"
    by simp_all
  have not_right: "?pid \<notin> set rc"
  proof
    assume "?pid \<in> set rc"
    with assms(3) have "?pid \<in> set ov" by (simp add: ov_def)
    then have "count_list (columns m) ?pid = 0"
      by (simp add: f(1) count_suffixed [OF plain_product_id x]
          count_suffixed [OF plain_product_id y])
    with in_m show False by (simp add: count_list_0_iff)
  qed
  from assms(2) have rect: "rect products_df" by (rule wf_frame_rect)
  have key: "?key (l @ x) = ?lk l" if "l \<in> set (rows products_df)" for l x
  proof -
    from that rect have "length l = length ?lc" by (simp add: rect_def)
    from merge_left_left_cells [OF m plain_product_id _ this] not_right show ?thesis
      by (simp add: rc_def)
  qed
  have joined: "\<forall>q \<in> set (rows products_df). \<forall>r \<in> set (?J q). ?key r = ?lk q"
    using join_row_extends key by blast
  have "set (map ?key (rows m)) = set (map ?lk (rows products_df))"
  proof (intro equalityI subsetI)
    fix v assume "v \<in> set (map ?key (rows m))"
    then obtain q r where "q \<in> set (rows products_df)" "r \<in> set (?J q)" "v = ?key r"
      by (auto simp: f(2))
    with joined show "v \<in> set (map ?lk (rows products_df))" by auto
  next
    fix v assume "v \<in> set (map ?lk (rows products_df))"
    then obtain q where q: "q \<in> set (rows products_df)" "v = ?lk q" by auto
    obtain r where r: "r \<in> set (?J q)"
      using join_row_nonempty [of ?k ?lc ?rc "rows translation_df" q]
      by (cases "?J q") auto
    with q have "r \<in> set (rows m)" by (auto simp: f(2))
    moreover from joined q r have "v = ?key r" by simp
    ultimately show "v \<in> set (map ?key (rows m))" by auto
  qed
  then have keys: "set (key_values ?pid out) = set (key_values ?pid products_df)"
    using keep_first_keys [of ?key "[]" "rows m"] by (simp add: out key_values_def)
  have dist: "distinct (key_values ?pid out)"
    using keep_first_distinct [of ?key "[]" "rows m"] by (simp add: out key_values_def)
  have unmatched: "p @ replicate (length ?rc - 1) Null \<in> set (rows out)"
    if p: "p \<in> set (rows products_df)"
      and first: "find (\<lambda>q. ?lk q = ?lk p) (rows products_df) = Some p"
      and un: "cells_of ?k ?lc p \<notin> set (key_values ?k translation_df)" for p
  proof -
    let ?r = "p @ replicate (length ?rc - 1) Null"
    from un have "cells_of ?k ?lc p \<notin> cells_of ?k ?rc ` set (rows translation_df)"
      by (simp add: key_values_def)
    from join_row_unmatched [OF this] have J: "?J p = [?r]"
      by (simp add: length_filter_other [OF f(4)])
    have "find (\<lambda>r. ?key r = ?lk p) (rows m) = Some ?r"
      unfolding f(2) using first J key [OF p] joined by (rule find_concat_first)
    from keep_first_contains [OF this, of "[]"] show ?thesis by (simp add: out)
  qed
  from dist keys unmatched show ?thesis by blast
qed

theorem dim_products_one_row_per_product_witness:
  "transform_dim_products ex_products ex_translation = Inr ex_dim_products
   \<and> wf_frame ex_products
   \<and> ''product_id'' \<in> set (columns ex_products)
   \<and> distinct (key_values ''product_id'' ex_dim_products)
   \<and> set (key_values ''product_id'' ex_dim_products)
       = set (key_values ''product_id'' ex_products)
   \<and> [Str ''p2'', Str ''pcs''] @ replicate (length (columns ex_translation) - 1) Null
       \<in> set (rows ex_dim_products)"
proof -
  have pid: "''product_id'' \<in> set (columns ex_products)"
    by (simp add: ex_products_def)
  note th = dim_products_one_row_per_product [OF run_products wf_ex_frames(3) pid]
  have p: "[Str ''p2'', Str ''pcs''] \<in> set (rows ex_products)"
    "find (\<lambda>q. cells_of ''product_id'' (columns ex_products) q
                = cells_of ''product_id'' (columns ex_products) [Str ''p2'', Str ''pcs''])
       (rows ex_products) = Some [Str ''p2'', Str ''pcs'']"
    "cells_of ''product_category_name'' (columns ex_products) [Str ''p2'', Str ''pcs'']
       \<notin> set (key_values ''product_category_name'' ex_translation)"
    by (simp_all add: ex_products_def ex_translation_def key_values_def)
  from th p have "[Str ''p2'', Str ''pcs''] @ replicate (length (columns ex_translation) - 1) Null
       \<in> set (rows ex_dim_products)"
    by blast
  with th run_products wf_ex_frames(3) pid show ?thesis by blast
qed




text \<open>
  C4. Whenever the fact transformer returns a frame for tables as a store returns them,
  that frame has at least as many rows as the raw orders table. Every row of the raw
  orders table whose order has no matching items, payments and reviews appears in it
  exactly once: the frame has as many rows with that \<^verbatim>\<open>order_id\<close> as the raw orders table
  has, and each of them has a missing value in every column of the fact table that does
  not come from the orders table. The left merges give this whatever the items, payments
  and reviews tables hold for the other orders.
\<close>

theorem fact_orders_keeps_every_order:
  assumes "transform_fact_orders pd tabs = (Inr out, tabs1)"
    and "\<forall>name df. tabs name = Some df \<longrightarrow> wf_frame df"
    and "tabs ''olist_orders_dataset'' = Some orders"
      "tabs ''olist_order_items_dataset'' = Some items"
      "tabs ''olist_order_payments_dataset'' = Some payments"
      "tabs ''olist_order_reviews_dataset'' = Some reviews"
  shows "length (rows orders) \<le> length (rows out)
       \<and> (\<forall>kv. kv \<notin> set (key_values ''order_id'' items)
              \<and> kv \<notin> set (key_values ''order_id'' payments)
              \<and> kv \<notin> set (key_values ''order_id'' reviews) \<longrightarrow>
            length (filter (\<lambda>r. cells_of ''order_id'' (columns out) r = kv) (rows out))
              = length (filter (\<lambda>r. cells_of ''order_id'' (columns orders) r = kv) (rows orders))
          \<and> (\<forall>r \<in> set (rows out). cells_of ''order_id'' (columns out) r = kv \<longrightarrow>
                (\<forall>c \<in> set cols. c \<notin> set (columns orders) \<longrightarrow>
                   cells_of c (columns out) r = [Null])))"
proof -
  let ?k = "''order_id''"
  from fact_orders_rows [OF assms(1,2,3)] obtain parsed merged G where
    p: "parse_purchase_timestamp pd orders = Inr parsed"
    and m: "merge_orders tabs parsed = Inr merged"
    and rows: "rows out = map G (rows merged)"
    and labels: "columns out = cols"
    and len: "\<And>r c. r \<in> set (rows merged) \<Longrightarrow> c \<in> set cols \<Longrightarrow>
       length (cells_of c (columns merged) r) = 1"
    and cells: "\<And>r c. r \<in> set (rows merged) \<Longrightarrow> c \<in> set cols \<Longrightarrow>
       cells_of c cols (G r) =
         (if c = ''payment_value'' \<or> c = ''review_score''
          then map (to_numeric_cell pd) (cells_of c (columns merged) r)
          else cells_of c (columns merged) r)"
    by blast
  from assms(2,3) have wf: "wf_frame orders" by blast
  note pf = parse_purchase_timestamp_frame [OF wf_frame_rect [OF wf] p]
  note mr = merge_orders_rect [OF m assms(2) pf(2)]
  have k_in: "?k \<in> set cols" by (simp add: cols_def)
  have key: "cells_of ?k cols (G r) = cells_of ?k (columns merged) r"
    if "r \<in> set (rows merged)" for r
    using cells [OF that k_in] by simp
  have first: "length (rows orders) \<le> length (rows out)"
    using mr(2) pf(3) by (simp add: rows)
  have second: "length (filter (\<lambda>r. cells_of ?k (columns out) r = kv) (rows out))
              = length (filter (\<lambda>r. cells_of ?k (columns orders) r = kv) (rows orders))
          \<and> (\<forall>r \<in> set (rows out). cells_of ?k (columns out) r = kv \<longrightarrow>
                (\<forall>c \<in> set cols. c \<notin> set (columns orders) \<longrightarrow>
                   cells_of c (columns out) r = [Null]))"
    if un: "kv \<notin> set (key_values ?k items)" "kv \<notin> set (key_values ?k payments)"
      "kv \<notin> set (key_values ?k reviews)" for kv
  proof -
    let ?F0 = "filter (\<lambda>l. cells_of ?k (columns parsed) l = kv) (rows parsed)"
    let ?F3 = "filter (\<lambda>r. cells_of ?k (columns merged) r = kv) (rows merged)"
    from merge_orders_unmatched [OF m assms(2) pf(2) assms(4-6) un] obtain N where
      eq: "?F3 = map N ?F0"
      and nulls: "\<And>l c. l \<in> set (rows parsed) \<Longrightarrow> plain c \<Longrightarrow> c \<notin> set (columns parsed) \<Longrightarrow>
                 cells_of ?k (columns parsed) l = kv
                 \<Longrightarrow> set (cells_of c (columns merged) (N l)) \<subseteq> {Null}"
      by blast
    have "filter (\<lambda>r. cells_of ?k (columns out) r = kv) (rows out)
        = map G (filter (\<lambda>r. cells_of ?k cols (G r) = kv) (rows merged))"
      by (simp add: rows labels filter_map comp_def)
    also have "filter (\<lambda>r. cells_of ?k cols (G r) = kv) (rows merged) = ?F3"
      by (rule filter_cong) (simp_all add: key)
    finally have out: "filter (\<lambda>r. cells_of ?k (columns out) r = kv) (rows out) = map G ?F3" .
    have "length ?F0 = length (filter (\<lambda>x. x = kv) (key_values ?k parsed))"
      by (simp add: key_values_def filter_map comp_def)
    also have "\<dots> = length (filter (\<lambda>x. x = kv) (key_values ?k orders))"
      using pf(4) [of ?k] by simp
    also have "\<dots> = length (filter (\<lambda>r. cells_of ?k (columns orders) r = kv) (rows orders))"
      by (simp add: key_values_def filter_map comp_def)
    finally have count: "length (filter (\<lambda>r. cells_of ?k (columns out) r = kv) (rows out))
              = length (filter (\<lambda>r. cells_of ?k (columns orders) r = kv) (rows orders))"
      by (simp add: out eq)
    have null: "cells_of c (columns out) r = [Null]"
      if r: "r \<in> set (rows out)" "cells_of ?k (columns out) r = kv"
        and c: "c \<in> set cols" "c \<notin> set (columns orders)" for r c
    proof -
      from r have "r \<in> set (map G ?F3)" by (simp add: out [symmetric])
      then obtain l where l: "l \<in> set ?F0" and r_eq: "r = G (N l)"
        by (auto simp: eq)
      from l have "N l \<in> set ?F3" by (simp add: eq)
      then have in3: "N l \<in> set (rows merged)" by simp
      from l have l': "l \<in> set (rows parsed)" "cells_of ?k (columns parsed) l = kv" by simp_all
      from c(1) cols_plain have "plain c" by blast
      from nulls [OF l'(1) this _ l'(2)] c(2) pf(1)
      have sub: "set (cells_of c (columns merged) (N l)) \<subseteq> {Null}" by simp
      from len [OF in3 c(1)] obtain v where v: "cells_of c (columns merged) (N l) = [v]"
        by (cases "cells_of c (columns merged) (N l)") simp_all
      with sub have "cells_of c (columns merged) (N l) = [Null]" by simp
      with cells [OF in3 c(1)] show ?thesis
        by (simp add: r_eq labels to_numeric_cell_Null)
    qed
    from count null show ?thesis by blast
  qed
  from first second show ?thesis by blast
qed

theorem fact_orders_keeps_every_order_witness:
  "transform_fact_orders ex_pd ex_dfs
     = (Inr ex_fact_orders, ex_dfs(''olist_orders_dataset'' \<mapsto> ex_orders_parsed))
   \<and> list_all wf_frame [ex_orders, ex_items, ex_payments, ex_reviews]
   \<and> [Str ''o3''] \<notin> set (key_values ''order_id'' ex_items)
   \<and> [Str ''o3''] \<notin> set (key_values ''order_id'' ex_payments)
   \<and> [Str ''o3''] \<notin> set (key_values ''order_id'' ex_reviews)
   \<and> length (rows ex_orders) \<le> length (rows ex_fact_orders)
   \<and> length (filter (\<lambda>r. cells_of ''order_id'' (columns ex_orders) r = [Str ''o3''])
         (rows ex_orders)) = 1
   \<and> length (filter (\<lambda>r. cells_of ''order_id'' (columns ex_fact_orders) r = [Str ''o3''])
         (rows ex_fact_orders)) = 1
   \<and> list_all (\<lambda>r. cells_of ''price'' (columns ex_fact_orders) r = [Null])
       (filter (\<lambda>r. cells_of ''order_id'' (columns ex_fact_orders) r = [Str ''o3''])
          (rows ex_fact_orders))"
proof -
  note th = fact_orders_keeps_every_order [OF run_fact wf_ex_dfs ex_tables(5,6,7,8)]
  have un: "[Str ''o3''] \<notin> set (key_values ''order_id'' ex_items)"
      "[Str ''o3''] \<notin> set (key_values ''order_id'' ex_payments)"
      "[Str ''o3''] \<notin> set (key_values ''order_id'' ex_reviews)"
    by (simp_all add: key_values_def ex_items_def ex_payments_def ex_reviews_def)
  have price: "''price'' \<in> set cols" "''price'' \<notin> set (columns ex_orders)"
    by (simp_all add: cols_def ex_orders_def)
  have once: "length (filter (\<lambda>r. cells_of ''order_id'' (columns ex_orders) r = [Str ''o3''])
         (rows ex_orders)) = 1"
    by (simp add: ex_orders_def)
  from th have first: "length (rows ex_orders) \<le> length (rows ex_fact_orders)" by blast
  from th un have
    "length (filter (\<lambda>r. cells_of ''order_id'' (columns ex_fact_orders) r = [Str ''o3''])
         (rows ex_fact_orders))
       = length (filter (\<lambda>r. cells_of ''order_id'' (columns ex_orders) r = [Str ''o3''])
           (rows ex_orders))"
    by blast
  with once have out:
    "length (filter (\<lambda>r. cells_of ''order_id'' (columns ex_fact_orders) r = [Str ''o3''])
         (rows ex_fact_orders)) = 1"
    by simp
  from th un price have
    "\<forall>r \<in> set (rows ex_fact_orders).
       cells_of ''order_id'' (columns ex_fact_orders) r = [Str ''o3''] \<longrightarrow>
       cells_of ''price'' (columns ex_fact_orders) r = [Null]"
    by blast
  then have nulls: "list_all (\<lambda>r. cells_of ''price'' (columns ex_fact_orders) r = [Null])
       (filter (\<lambda>r. cells_of ''order_id'' (columns ex_fact_orders) r = [Str ''o3''])
          (rows ex_fact_orders))"
    by (simp add: list_all_iff)
  have wf: "list_all wf_frame [ex_orders, ex_items, ex_payments, ex_reviews]"
    using wf_ex_frames wf_ex_orders by simp
  from run_fact wf un first once out nulls show ?thesis by blast
qed

text \<open>
  C5. Whenever the fact transformer returns a frame for tables as a store returns them
  (distinct labels, one cell for each label in every row), the labels of that frame are
  the fifteen labels of \<^verbatim>\<open>cols\<close>, in that order. (A merge may leave a label twice in its
  result, but only labels that end in a suffix of the merge, which none of the fifteen
  does.)
\<close>

theorem fact_orders_columns:
  assumes "transform_fact_orders pd tabs = (Inr out, tabs1)"
    and "\<forall>name df. tabs name = Some df \<longrightarrow> wf_frame df"
  shows "columns out = [''order_id'', ''customer_id'', ''order_purchase_timestamp'',
           ''order_approved_at'', ''order_delivered_carrier_date'',
           ''order_delivered_customer_date'', ''order_estimated_delivery_date'',
           ''product_id'', ''seller_id'', ''price'', ''freight_value'', ''payment_type'',
           ''payment_installments'', ''payment_value'', ''review_score'']"
proof -
  from assms(1) obtain orders0 orders merged m1 m2 where
    o: "tabs ''olist_orders_dataset'' = Some orders0"
    and p: "parse_purchase_timestamp pd orders0 = Inr orders"
    and m: "merge_orders tabs orders = Inr merged"
    and s: "select_columns cols merged = Inr m1"
    and c: "coerce_numeric pd ''payment_value'' m1 = Inr m2"
       "coerce_numeric pd ''review_score'' m2 = Inr out"
    by (auto simp: transform_fact_orders_def try_bind_def table_def
        split: option.splits sum.splits)
  from o assms(2) have wf: "wf_frame orders0" by blast
  then have "distinct (columns orders)"
    using parse_purchase_timestamp_frame(1) [OF wf_frame_rect [OF wf] p]
    by (simp add: wf_frame_def)
  then have "\<forall>c \<in> set cols. count_list (columns merged) c \<le> 1"
    using merge_orders_count [OF m assms(2)] cols_plain by blast
  from select_columns_labels [OF s this] coerce_numeric_labels [OF c(1)]
    coerce_numeric_labels [OF c(2)]
  show ?thesis by (simp add: cols_def)
qed

theorem fact_orders_columns_witness:
  "transform_fact_orders ex_pd ex_dfs
     = (Inr ex_fact_orders, ex_dfs(''olist_orders_dataset'' \<mapsto> ex_orders_parsed))
   \<and> list_all wf_frame [ex_orders, ex_items, ex_payments, ex_reviews]
   \<and> columns ex_fact_orders = [''order_id'', ''customer_id'', ''order_purchase_timestamp'',
           ''order_approved_at'', ''order_delivered_carrier_date'',
           ''order_delivered_customer_date'', ''order_estimated_delivery_date'',
           ''product_id'', ''seller_id'', ''price'', ''freight_value'', ''payment_type'',
           ''payment_installments'', ''payment_value'', ''review_score'']"
  using run_fact wf_ex_frames wf_ex_orders fact_orders_columns [OF run_fact wf_ex_dfs]
  by simp

text \<open>
  C6. Whenever the fact transformer returns a frame, every cell of its columns
  \<^verbatim>\<open>payment_value\<close> and \<^verbatim>\<open>review_score\<close> is a number or missing; and the coercion of a
  value that is not a number and does not convert to one gives a missing value: it is a
  total function and has no exception to raise.
\<close>

theorem fact_orders_measures_numeric_or_null:
  assumes "transform_fact_orders pd tabs = (Inr out, tabs1)"
  shows "(\<forall>r \<in> set (rows out).
            (\<forall>v \<in> set (cells_of ''payment_value'' (columns out) r). numeric_or_null v)
          \<and> (\<forall>v \<in> set (cells_of ''review_score'' (columns out) r). numeric_or_null v))
       \<and> (\<forall>c. \<not> numeric_or_null c \<and> parse_numeric pd c = None \<longrightarrow> to_numeric_cell pd c = Null)"
proof -
  from assms obtain m1 m2 where
    m2: "coerce_numeric pd ''payment_value'' m1 = Inr m2"
    and out: "coerce_numeric pd ''review_score'' m2 = Inr out"
    by (auto simp: transform_fact_orders_def try_bind_def split: sum.splits)
  note a = coerce_numeric_cells [OF m2] and b = coerce_numeric_cells [OF out]
  have "\<forall>v \<in> set (cells_of ''review_score'' (columns out) r). numeric_or_null v"
    if "r \<in> set (rows out)" for r
    using b(2) that by blast
  moreover have "\<forall>v \<in> set (cells_of ''payment_value'' (columns out) r). numeric_or_null v"
    if "r \<in> set (rows out)" for r
  proof -
    from b(3) [of "''payment_value''"] that obtain r0 where
      "r0 \<in> set (rows m2)"
      "cells_of ''payment_value'' (columns out) r = cells_of ''payment_value'' (columns m2) r0"
      by auto
    with a(2) show ?thesis by auto
  qed
  moreover have "to_numeric_cell pd c = Null"
    if "\<not> numeric_or_null c" "parse_numeric pd c = None" for c
    using that by (cases c) (simp_all add: to_numeric_cell_def numeric_or_null_def)
  ultimately show ?thesis by blast
qed

theorem fact_orders_measures_numeric_or_null_witness:
  "transform_fact_orders ex_pd ex_dfs
     = (Inr ex_fact_orders, ex_dfs(''olist_orders_dataset'' \<mapsto> ex_orders_parsed))
   \<and> list_all (\<lambda>r.
         list_all numeric_or_null (cells_of ''payment_value'' (columns ex_fact_orders) r)
       \<and> list_all numeric_or_null (cells_of ''review_score'' (columns ex_fact_orders) r))
       (rows ex_fact_orders)
   \<and> to_numeric_cell ex_pd (Str ''good'') = Null"
proof -
  note th = fact_orders_measures_numeric_or_null [OF run_fact]
  from th have "\<forall>c. \<not> numeric_or_null c \<and> parse_numeric ex_pd c = None \<longrightarrow>
          to_numeric_cell ex_pd c = Null" by blast
  then have "to_numeric_cell ex_pd (Str ''good'') = Null"
    by (simp add: numeric_or_null_def ex_pd_def)
  with th run_fact show ?thesis by (simp add: list_all_iff)
qed

text \<open>
  The tables are extracted by a statement of the module, before \<^verbatim>\<open>main\<close> is called
  and outside its \<^verbatim>\<open>try\<close>. Whatever the source store, an exception raised by the
  extract ends the script with that exception uncaught and exit status 1; the log, the
  console and the target store are as they were.
\<close>

lemma extract_exception_ends_the_script:
  "extract_all_tables engine = Inl e \<Longrightarrow>
   run_script pd sink engine w = \<lparr>final = w, uncaught = Some e, exit_status = 1\<rparr>"
  by (simp add: run_script_def)

text \<open>
  C7, as the specification states it, fails for the extract: the tables are extracted by
  a statement of the module that runs before \<^verbatim>\<open>main\<close> is called, outside its \<^verbatim>\<open>try\<close>.
  When the source store is down the exception is not caught: nothing is written to the
  log or to the console, and the script ends with the uncaught exception and exit
  status 1.
\<close>

theorem extract_exception_is_not_caught:
  "uncaught (run_script ex_pd ex_sink ex_engine_down ex_world)
     = Some (DatabaseError ''connection refused'')
   \<and> exit_status (run_script ex_pd ex_sink ex_engine_down ex_world) = 1
   \<and> log (final (run_script ex_pd ex_sink ex_engine_down ex_world)) = log ex_world
   \<and> console (final (run_script ex_pd ex_sink ex_engine_down ex_world)) = console ex_world"
  by (simp add: run_script_def extract_all_tables_def ex_engine_down_def)

text \<open>
  C7, amended. An exception raised by any of the five transforms or the five loads is
  caught by \<^verbatim>\<open>main\<close>, which appends the exception to the log and one line to the
  console and does nothing else. If a transform raised, no table has been loaded. If a
  load raised, the loads before it have succeeded: their tables are in the target store
  as loaded and each has its line in the log and on the console; the table of the
  failing load is as the store left it; no later load has been tried and every other
  table of the target store is as it was before the run.
\<close>

theorem main_catches_transform_and_load_exceptions:
  assumes "main_try pd sink w = (Inl e, w1)"
  shows "main pd sink w =
           w1\<lparr>log := log w1 @ [Exception ''ETL job failed'' e],
              console := console w1 @ [''ETL job failed. Check log for details.'']\<rparr>
       \<and> (case transforms pd (dfs w) of
            (Inl e', tabs) \<Rightarrow> e' = e \<and> w1 = w\<lparr>dfs := tabs\<rparr>
          | (Inr t, tabs) \<Rightarrow>
              (\<exists>ok name df rest left_over.
                 load_plan t = ok @ (name, df) # rest
               \<and> list_all (\<lambda>p. sink (fst p) (snd p) = None) ok
               \<and> sink name df = Some (e, left_over)
               \<and> log w1 = log w @ map (\<lambda>p. Info (''Loaded table: '' @ fst p)) ok
               \<and> console w1 = console w @ map (\<lambda>p. ''Loaded: '' @ fst p) ok
               \<and> (\<forall>p \<in> set ok. target w1 (fst p) = Some (snd p))
               \<and> target w1 name = left_over
               \<and> (\<forall>n. n \<notin> fst ` set ok \<and> n \<noteq> name \<longrightarrow> target w1 n = target w n)))"
proof -
  have caught: "main pd sink w =
           w1\<lparr>log := log w1 @ [Exception ''ETL job failed'' e],
              console := console w1 @ [''ETL job failed. Check log for details.'']\<rparr>"
    using assms by (simp add: main_def)
  obtain res tabs where tr: "transforms pd (dfs w) = (res, tabs)"
    by (cases "transforms pd (dfs w)")
  show ?thesis
  proof (cases res)
    case (Inl e')
    with tr assms caught show ?thesis by (simp add: main_try_def)
  next
    case (Inr t)
    let ?w = "w\<lparr>dfs := tabs\<rparr>"
    from Inr tr assms have "load_each sink (load_plan t) ?w = (Inl e, w1)"
      by (simp add: main_try_def loads_load_each)
    from load_each_fails [OF this] obtain ok name df rest left_over where
      plan: "load_plan t = ok @ (name, df) # rest"
      and ok: "list_all (\<lambda>p. sink (fst p) (snd p) = None) ok"
      and bad: "sink name df = Some (e, left_over)"
      and w1: "w1 = (loaded ok ?w)\<lparr>target := (target (loaded ok ?w))(name := left_over)\<rparr>"
      by blast
    from load_plan_distinct [of t] have dist: "distinct (map fst ok)" "name \<notin> fst ` set ok"
      by (auto simp: plan)
    have "target w1 (fst p) = Some (snd p)" if "p \<in> set ok" for p
      using that dist fold_update_same [OF dist(1) that] by (auto simp: w1 loaded_def)
    moreover have "target w1 n = target w n" if "n \<notin> fst ` set ok" "n \<noteq> name" for n
      using that by (simp add: w1 loaded_def fold_update_other)
    moreover have "log w1 = log w @ map (\<lambda>p. Info (''Loaded table: '' @ fst p)) ok"
      "console w1 = console w @ map (\<lambda>p. ''Loaded: '' @ fst p) ok"
      "target w1 name = left_over"
      by (simp_all add: w1 loaded_def)
    ultimately have "\<exists>ok name df rest left_over.
                 load_plan t = ok @ (name, df) # rest
               \<and> list_all (\<lambda>p. sink (fst p) (snd p) = None) ok
               \<and> sink name df = Some (e, left_over)
               \<and> log w1 = log w @ map (\<lambda>p. Info (''Loaded table: '' @ fst p)) ok
               \<and> console w1 = console w @ map (\<lambda>p. ''Loaded: '' @ fst p) ok
               \<and> (\<forall>p \<in> set ok. target w1 (fst p) = Some (snd p))
               \<and> target w1 name = left_over
               \<and> (\<forall>n. n \<notin> fst ` set ok \<and> n \<noteq> name \<longrightarrow> target w1 n = target w n)"
      using plan ok bad by blast
    with Inr tr caught show ?thesis by simp
  qed
qed

theorem main_catches_transform_and_load_exceptions_witness:
  "main_try ex_pd ex_sink ex_world = (Inl (DatabaseError ''disk full''), ex_world_failed)
   \<and> main ex_pd ex_sink ex_world =
        ex_world_failed\<lparr>log := log ex_world_failed
                               @ [Exception ''ETL job failed'' (DatabaseError ''disk full'')],
           console := console ex_world_failed @ [''ETL job failed. Check log for details.'']\<rparr>
   \<and> transforms ex_pd (dfs ex_world)
        = (Inr ex_star, ex_dfs(''olist_orders_dataset'' \<mapsto> ex_orders_parsed))
   \<and> (\<exists>ok name df rest left_over.
         load_plan ex_star = ok @ (name, df) # rest
       \<and> list_all (\<lambda>p. ex_sink (fst p) (snd p) = None) ok
       \<and> ex_sink name df = Some (DatabaseError ''disk full'', left_over)
       \<and> log ex_world_failed = log ex_world @ map (\<lambda>p. Info (''Loaded table: '' @ fst p)) ok
       \<and> console ex_world_failed = console ex_world @ map (\<lambda>p. ''Loaded: '' @ fst p) ok
       \<and> (\<forall>p \<in> set ok. target ex_world_failed (fst p) = Some (snd p))
       \<and> target ex_world_failed name = left_over
       \<and> (\<forall>n. n \<notin> fst ` set ok \<and> n \<noteq> name \<longrightarrow>
             target ex_world_failed n = target ex_world n))"
proof -
  have tr: "transforms ex_pd (dfs ex_world)
        = (Inr ex_star, ex_dfs(''olist_orders_dataset'' \<mapsto> ex_orders_parsed))"
    by (simp add: ex_world_def run_transforms)
  have run: "main_try ex_pd ex_sink ex_world = (Inl (DatabaseError ''disk full''), ex_world_failed)"
    by (simp add: main_try_def tr)
       (simp add: loads_def and_then_def load_table_def ex_sink_def ex_star_def ex_world_def
          ex_world_failed_def)
  from main_catches_transform_and_load_exceptions [OF run] tr run show ?thesis by simp
qed




text \<open>
  C9. When the extract has succeeded and a transform or a load raises, \<^verbatim>\<open>main\<close> catches
  the exception, writes it to the log and to the console, and returns; the script then
  ends with exit status 0 and no uncaught exception, as after a run without failure.
\<close>

theorem failed_job_exits_with_status_zero:
  assumes "extract_all_tables engine = Inr tabs"
    and "main_try pd sink (w\<lparr>dfs := tabs\<rparr>) = (Inl e, w1)"
  shows "exit_status (run_script pd sink engine w) = 0
       \<and> uncaught (run_script pd sink engine w) = None
       \<and> final (run_script pd sink engine w) =
           w1\<lparr>log := log w1 @ [Exception ''ETL job failed'' e],
              console := console w1 @ [''ETL job failed. Check log for details.'']\<rparr>"
  using assms by (simp add: run_script_def main_def)

theorem failed_job_exits_with_status_zero_witness:
  "extract_all_tables ex_engine = Inr [''olist_customers_dataset'' \<mapsto> ex_customers]
   \<and> main_try ex_pd ex_sink (ex_world\<lparr>dfs := [''olist_customers_dataset'' \<mapsto> ex_customers]\<rparr>)
       = (Inl (KeyError ''olist_sellers_dataset''),
          ex_world\<lparr>dfs := [''olist_customers_dataset'' \<mapsto> ex_customers]\<rparr>)
   \<and> exit_status (run_script ex_pd ex_sink ex_engine ex_world) = 0
   \<and> uncaught (run_script ex_pd ex_sink ex_engine ex_world) = None
   \<and> final (run_script ex_pd ex_sink ex_engine ex_world) =
       ex_world\<lparr>dfs := [''olist_customers_dataset'' \<mapsto> ex_customers],
                log := log (ex_world\<lparr>dfs := [''olist_customers_dataset'' \<mapsto> ex_customers]\<rparr>)
                        @ [Exception ''ETL job failed'' (KeyError ''olist_sellers_dataset'')],
                console := console (ex_world\<lparr>dfs := [''olist_customers_dataset'' \<mapsto> ex_customers]\<rparr>)
                        @ [''ETL job failed. Check log for details.'']\<rparr>"
proof -
  have ex: "extract_all_tables ex_engine = Inr [''olist_customers_dataset'' \<mapsto> ex_customers]"
    by (simp add: extract_all_tables_def ex_engine_def)
  have run: "main_try ex_pd ex_sink (ex_world\<lparr>dfs := [''olist_customers_dataset'' \<mapsto> ex_customers]\<rparr>)
       = (Inl (KeyError ''olist_sellers_dataset''),
          ex_world\<lparr>dfs := [''olist_customers_dataset'' \<mapsto> ex_customers]\<rparr>)"
    by (simp add: main_try_def transforms_def try_bind_def table_def run_customers)
  from ex run failed_job_exits_with_status_zero [OF ex run] show ?thesis by simp
qed

text \<open>
  C10. Whenever the products transformer returns a frame, also when a category has
  several translations, no two rows of that frame share a \<^verbatim>\<open>product_id\<close>, and every
  row of it is the first row with its \<^verbatim>\<open>product_id\<close> among the rows of the merge, in the
  order of the merge.
\<close>

theorem dim_products_keeps_first_joined_row:
  assumes "merge_left ''product_category_name'' products_df translation_df = Inr merged"
    and "transform_dim_products products_df translation_df = Inr out"
  shows "columns out = columns merged
       \<and> distinct (key_values ''product_id'' out)
       \<and> (\<forall>r \<in> set (rows out).
            find (\<lambda>m. cells_of ''product_id'' (columns merged) m
                        = cells_of ''product_id'' (columns merged) r) (rows merged) = Some r)"
proof -
  let ?key = "cells_of ''product_id'' (columns merged)"
  from assms have out: "out = merged\<lparr>rows := keep_first ?key [] (rows merged)\<rparr>"
    by (auto simp: transform_dim_products_def drop_duplicates_def split: if_splits)
  have "distinct (key_values ''product_id'' out)"
    using keep_first_distinct [of ?key "[]" "rows merged"] by (simp add: out key_values_def)
  moreover have "find (\<lambda>m. ?key m = ?key r) (rows merged) = Some r" if "r \<in> set (rows out)" for r
    using that keep_first_find [of r ?key "[]" "rows merged"] by (simp add: out)
  ultimately show ?thesis by (simp add: out)
qed

theorem dim_products_keeps_first_joined_row_witness:
  "merge_left ''product_category_name'' ex_products ex_translation = Inr ex_merged_products
   \<and> transform_dim_products ex_products ex_translation = Inr ex_dim_products
   \<and> columns ex_dim_products = columns ex_merged_products
   \<and> distinct (key_values ''product_id'' ex_dim_products)
   \<and> list_all (\<lambda>r.
         find (\<lambda>m. cells_of ''product_id'' (columns ex_merged_products) m
                     = cells_of ''product_id'' (columns ex_merged_products) r)
           (rows ex_merged_products) = Some r)
       (rows ex_dim_products)"
  using run_merge_products run_products
    dim_products_keeps_first_joined_row [OF run_merge_products run_products]
  by (simp add: list_all_iff)

end
